theory Spec2Isabelle
  imports Complex_Main "HOL-Library.Multiset" "HOL-Library.Log_Nat"
begin

section \<open>Data model\<close>

text \<open>
  The services of the manga backend (\<^verbatim>\<open>src/services/*.service.js\<close>) are asynchronous
  JavaScript functions over a Prisma store. Each one is embedded as a function from the
  store before the call to the outcome of the call paired with the store after it. The
  store after the call is returned on failure as well, because no service wraps its
  writes in a transaction: a call that throws after a write leaves that write behind.

  Rows are records; a table is the list of its rows in insertion order. Field names carry
  a prefix naming their table (\<open>m_\<close> manga, \<open>c_\<close> chapter, \<open>h_\<close> readingHistory,
  \<open>b_\<close> bookmark, \<open>v_\<close> chapterView), since Prisma reuses \<^verbatim>\<open>id\<close>, \<^verbatim>\<open>title\<close>,
  \<^verbatim>\<open>totalViews\<close> and others across models. Identifiers are generated by the store;
  they are drawn from the counter \<open>nextId\<close>. \<^verbatim>\<open>new Date()\<close> is the argument \<open>now\<close>
  of an operation. An exception is a value of type \<open>error\<close>: \<open>AppError msg code\<close> is the
  repository's \<^verbatim>\<open>new AppError(msg, code)\<close>, \<open>PrismaError\<close> carries the code of an
  error raised by the store (\<^verbatim>\<open>P2002\<close> unique constraint, \<^verbatim>\<open>P2025\<close> record not
  found), \<open>TypeError\<close> is JavaScript's error on reading a property of \<^verbatim>\<open>null\<close>.
\<close>

datatype error = AppError string nat | PrismaError string | TypeError string

datatype role = USER | UPLOADER | ADMIN

datatype approvalStatus = PENDING | APPROVED | REJECTED

datatype mangaStatus = ONGOING | COMPLETED | HIATUS | CANCELLED

record manga =
  m_id :: nat
  m_title :: string
  m_slug :: string
  m_status :: mangaStatus
  m_approvalStatus :: approvalStatus
  m_uploaderId :: nat
  m_authors :: "string list"
  m_genres :: "string list"
  m_totalChapters :: int
  m_totalViews :: int
  m_lastChapterAt :: "nat option"

record chapterRow =
  c_id :: nat
  c_mangaId :: nat
  c_chapterNumber :: rat
  c_images :: "string list"
  c_totalImages :: nat
  c_totalViews :: int
  c_publishedAt :: nat

record bookmark =
  b_id :: nat
  b_userId :: nat
  b_mangaId :: nat
  b_createdAt :: nat

record readingHistory =
  h_id :: nat
  h_userId :: nat
  h_chapterId :: nat
  h_mangaId :: nat
  h_currentPage :: int
  h_totalPages :: int
  h_progressPercent :: int
  h_isCompleted :: bool
  h_lastReadAt :: nat

record chapterView =
  v_chapterId :: nat
  v_userId :: nat

text \<open>
  A row of the author model or of the genre model. Both are looked up by name
  (\<^verbatim>\<open>connectOrCreate: { where: { name } }\<close>) and by slug
  (\<^verbatim>\<open>findUnique({ where: { slug } })\<close>), so each of the two fields is unique in its
  table.
\<close>

record nameRow =
  r_name :: string
  r_slug :: string

record db =
  mangas :: "manga list"
  chapters :: "chapterRow list"
  bookmarks :: "bookmark list"
  readingHistories :: "readingHistory list"
  chapterViews :: "chapterView list"
  authors :: "nameRow list"
  genres :: "nameRow list"
  nextId :: nat

text \<open>
  What the services call but the repository does not define: the \<^verbatim>\<open>slugify\<close> package
  behind \<^verbatim>\<open>createSlug\<close>, the image host behind \<^verbatim>\<open>uploadSingleImage\<close> and
  \<^verbatim>\<open>uploadMultiple\<close> (a file is named by a string; an upload yields the image's URL or
  throws), and the referential actions that the Prisma schema attaches to the deletion of
  a manga row (\<open>Inl code\<close>: the store refuses with that error code; \<open>Inr s\<close>: the store
  after the actions on the dependent rows).
\<close>

record collaborators =
  createSlug :: "string \<Rightarrow> string"
  uploadSingleImage :: "string \<Rightarrow> error + string"
  uploadMultiple :: "string list \<Rightarrow> error + string list"
  onMangaDelete :: "nat \<Rightarrow> db \<Rightarrow> string + db"

section \<open>Store primitives\<close>

text \<open>
  \<^verbatim>\<open>prisma.manga.findUnique({ where: { id } })\<close> and its chapter counterpart; \<^verbatim>\<open>null\<close>
  is \<open>None\<close>.
\<close>

definition manga_findUnique :: "nat \<Rightarrow> db \<Rightarrow> manga option" where
  "manga_findUnique k s = List.find (\<lambda>m. m_id m = k) (mangas s)"

definition chapter_findUnique :: "nat \<Rightarrow> db \<Rightarrow> chapterRow option" where
  "chapter_findUnique k s = List.find (\<lambda>c. c_id c = k) (chapters s)"

text \<open>
  \<^verbatim>\<open>prisma.manga.update({ where: { id }, data })\<close>: the row with that id is rewritten by
  \<open>f\<close>; Prisma throws \<^verbatim>\<open>P2025\<close> and writes nothing when there is no such row.
\<close>

definition manga_update :: "nat \<Rightarrow> (manga \<Rightarrow> manga) \<Rightarrow> db \<Rightarrow> error + db" where
  "manga_update k f s =
     (case manga_findUnique k s of
        None \<Rightarrow> Inl (PrismaError ''P2025'')
      | Some _ \<Rightarrow> Inr (s\<lparr>mangas := map (\<lambda>m. if m_id m = k then f m else m) (mangas s)\<rparr>))"

definition chapter_update :: "nat \<Rightarrow> (chapterRow \<Rightarrow> chapterRow) \<Rightarrow> db \<Rightarrow> error + db" where
  "chapter_update k f s =
     (case chapter_findUnique k s of
        None \<Rightarrow> Inl (PrismaError ''P2025'')
      | Some _ \<Rightarrow> Inr (s\<lparr>chapters := map (\<lambda>c. if c_id c = k then f c else c) (chapters s)\<rparr>))"

text \<open>\<^verbatim>\<open>prisma.chapter.delete({ where: { id } })\<close>.\<close>

definition chapter_delete :: "nat \<Rightarrow> db \<Rightarrow> error + db" where
  "chapter_delete k s =
     (case chapter_findUnique k s of
        None \<Rightarrow> Inl (PrismaError ''P2025'')
      | Some _ \<Rightarrow> Inr (s\<lparr>chapters := filter (\<lambda>c. c_id c \<noteq> k) (chapters s)\<rparr>))"

section \<open>Chapter service\<close>

text \<open>
  The body of a chapter-creation request. \<^verbatim>\<open>chapterNumber\<close> arrives as text and the
  service applies \<^verbatim>\<open>parseFloat\<close> wherever it compares or stores it; the model takes the
  parsed number. \<^verbatim>\<open>images\<close> is the optional list of URLs given instead of files.
  The chapter's \<^verbatim>\<open>title\<close>, \<^verbatim>\<open>slug\<close> and \<^verbatim>\<open>status\<close> are written and never read by
  the operations below, and are left out of the row.
\<close>

record chapterData =
  cd_chapterNumber :: rat
  cd_images :: "string list option"

definition chapter_findFirst_number :: "nat \<Rightarrow> rat \<Rightarrow> db \<Rightarrow> chapterRow option" where
  "chapter_findFirst_number mangaId n s =
     List.find (\<lambda>c. c_mangaId c = mangaId \<and> c_chapterNumber c = n) (chapters s)"

text \<open>
  The images of the new chapter: the uploaded files when there are any, else the URLs of
  the body, else none.
\<close>

definition resolveImages :: "collaborators \<Rightarrow> chapterData \<Rightarrow> string list \<Rightarrow> error + string list" where
  "resolveImages ext chapterData files =
     (if files \<noteq> [] then uploadMultiple ext files
      else Inr (case cd_images chapterData of None \<Rightarrow> [] | Some urls \<Rightarrow> urls))"

definition newChapter :: "nat \<Rightarrow> nat \<Rightarrow> chapterData \<Rightarrow> string list \<Rightarrow> db \<Rightarrow> chapterRow" where
  "newChapter now mangaId chapterData images s =
     \<lparr>c_id = nextId s, c_mangaId = mangaId, c_chapterNumber = cd_chapterNumber chapterData,
      c_images = images, c_totalImages = length images, c_totalViews = 0,
      c_publishedAt = now\<rparr>"

definition chapter_create :: "chapterRow \<Rightarrow> db \<Rightarrow> db" where
  "chapter_create row s = s\<lparr>chapters := chapters s @ [row], nextId := Suc (nextId s)\<rparr>"

definition createChapter ::
  "collaborators \<Rightarrow> nat \<Rightarrow> nat \<Rightarrow> chapterData \<Rightarrow> string list \<Rightarrow> nat \<Rightarrow> role \<Rightarrow> db
     \<Rightarrow> (error + chapterRow) \<times> db" where
  "createChapter ext now mangaId chapterData files userId userRole s =
     (case manga_findUnique mangaId s of
        None \<Rightarrow> (Inl (AppError ''Manga not found'' 404), s)
      | Some manga \<Rightarrow>
          if m_uploaderId manga \<noteq> userId \<and> userRole \<noteq> ADMIN
          then (Inl (AppError ''Not authorized to add chapters to this manga'' 403), s)
          else
            (case chapter_findFirst_number mangaId (cd_chapterNumber chapterData) s of
               Some existingChapter \<Rightarrow> (Inl (AppError ''Chapter number already exists'' 400), s)
             | None \<Rightarrow>
                 (case resolveImages ext chapterData files of
                    Inl e \<Rightarrow> (Inl e, s)
                  | Inr images \<Rightarrow>
                      if images = [] then (Inl (AppError ''No images provided'' 400), s)
                      else
                        (let chapter = newChapter now mangaId chapterData images s;
                             s1 = chapter_create chapter s
                         in case manga_update mangaId
                                   (\<lambda>m. m\<lparr>m_totalChapters := m_totalChapters m + 1,
                                           m_lastChapterAt := Some now\<rparr>) s1 of
                              Inl e \<Rightarrow> (Inl e, s1)
                            | Inr s2 \<Rightarrow> (Inr chapter, s2)))))"

definition deleteChapter :: "nat \<Rightarrow> nat \<Rightarrow> role \<Rightarrow> db \<Rightarrow> (error + bool) \<times> db" where
  "deleteChapter chapterId userId userRole s =
     (case chapter_findUnique chapterId s of
        None \<Rightarrow> (Inl (AppError ''Chapter not found'' 404), s)
      | Some chapter \<Rightarrow>
          (case manga_findUnique (c_mangaId chapter) s of
             None \<Rightarrow> (Inl (TypeError ''chapter.manga is null''), s)
           | Some manga \<Rightarrow>
               if m_uploaderId manga \<noteq> userId \<and> userRole \<noteq> ADMIN
               then (Inl (AppError ''Not authorized to delete this chapter'' 403), s)
               else
                 (case chapter_delete chapterId s of
                    Inl e \<Rightarrow> (Inl e, s)
                  | Inr s1 \<Rightarrow>
                      (case manga_update (c_mangaId chapter)
                              (\<lambda>m. m\<lparr>m_totalChapters := m_totalChapters m - 1\<rparr>) s1 of
                         Inl e \<Rightarrow> (Inl e, s1)
                       | Inr s2 \<Rightarrow> (Inr True, s2)))))"

text \<open>
  The \<^verbatim>\<open>data\<close> of an update request is handed to the store as it arrives
  (\<^verbatim>\<open>data: updateData\<close>): every field it names is overwritten, every other field is
  kept. The model carries the fields of the row other than its id and its owning manga.
\<close>

record chapterUpdate =
  cu_chapterNumber :: "rat option"
  cu_images :: "string list option"
  cu_totalImages :: "nat option"
  cu_totalViews :: "int option"

definition applyChapterUpdate :: "chapterUpdate \<Rightarrow> chapterRow \<Rightarrow> chapterRow" where
  "applyChapterUpdate u c =
     c\<lparr>c_chapterNumber := (case cu_chapterNumber u of None \<Rightarrow> c_chapterNumber c | Some v \<Rightarrow> v),
       c_images := (case cu_images u of None \<Rightarrow> c_images c | Some v \<Rightarrow> v),
       c_totalImages := (case cu_totalImages u of None \<Rightarrow> c_totalImages c | Some v \<Rightarrow> v),
       c_totalViews := (case cu_totalViews u of None \<Rightarrow> c_totalViews c | Some v \<Rightarrow> v)\<rparr>"

definition updateChapter ::
  "nat \<Rightarrow> chapterUpdate \<Rightarrow> nat \<Rightarrow> role \<Rightarrow> db \<Rightarrow> (error + chapterRow) \<times> db" where
  "updateChapter chapterId updateData userId userRole s =
     (case chapter_findUnique chapterId s of
        None \<Rightarrow> (Inl (AppError ''Chapter not found'' 404), s)
      | Some chapter \<Rightarrow>
          (case manga_findUnique (c_mangaId chapter) s of
             None \<Rightarrow> (Inl (TypeError ''chapter.manga is null''), s)
           | Some manga \<Rightarrow>
               if m_uploaderId manga \<noteq> userId \<and> userRole \<noteq> ADMIN
               then (Inl (AppError ''Not authorized to update this chapter'' 403), s)
               else
                 (case chapter_update chapterId (applyChapterUpdate updateData) s of
                    Inl e \<Rightarrow> (Inl e, s)
                  | Inr s1 \<Rightarrow> (Inr (applyChapterUpdate updateData chapter), s1))))"

text \<open>
  \<^verbatim>\<open>incrementChapterViews(chapterId, mangaId, userId = null)\<close>: three writes in program
  order, the third only for a known user.
\<close>

definition incrementChapterViews :: "nat \<Rightarrow> nat \<Rightarrow> nat option \<Rightarrow> db \<Rightarrow> (error + unit) \<times> db" where
  "incrementChapterViews chapterId mangaId userId s =
     (case chapter_update chapterId (\<lambda>c. c\<lparr>c_totalViews := c_totalViews c + 1\<rparr>) s of
        Inl e \<Rightarrow> (Inl e, s)
      | Inr s1 \<Rightarrow>
          (case manga_update mangaId (\<lambda>m. m\<lparr>m_totalViews := m_totalViews m + 1\<rparr>) s1 of
             Inl e \<Rightarrow> (Inl e, s1)
           | Inr s2 \<Rightarrow>
               (case userId of
                  None \<Rightarrow> (Inr (), s2)
                | Some u \<Rightarrow>
                    (Inr (), s2\<lparr>chapterViews :=
                                  chapterViews s2 @ [\<lparr>v_chapterId = chapterId, v_userId = u\<rparr>]\<rparr>))))"

section \<open>Manga service\<close>

text \<open>
  The body and the files of a manga-creation request. \<^verbatim>\<open>authorNames\<close> and
  \<^verbatim>\<open>genreNames\<close> are taken after \<^verbatim>\<open>JSON.parse\<close>. The thumbnail and the cover are
  uploaded when a file is given; the URLs are written and never read by the operations
  below, so the row does not carry them, but a failed upload aborts the call.
  \<^verbatim>\<open>slug\<close> is a unique field of the manga model (the service looks a manga up with
  \<^verbatim>\<open>findUnique({ where: { slug } })\<close>), so the store refuses a second row with the same
  slug. The counters of a new row start at the schema's defaults, taken to be 0 and
  \<^verbatim>\<open>null\<close>.

  For every author name and genre name the service builds the nested write
  \<^verbatim>\<open>connectOrCreate: { where: { name }, create: { name, slug: createSlug(name) } }\<close>.
  The store runs these one after the other inside the write of the manga: a name the
  table holds is connected; a new name is created with its slug, which the store refuses
  when another row of the table already has that slug, rows created earlier in the same
  request included. The nested writes belong to the one \<^verbatim>\<open>prisma.manga.create\<close> call,
  which writes everything or nothing. The join rows are the names as the request lists
  them; the key of the join tables is not visible in the sources, so what the store does
  with a name listed twice is left open, and the properties of a successful creation are
  stated for names listed once each.
\<close>

record mangaData =
  md_title :: string
  md_status :: "mangaStatus option"
  md_authorNames :: "string list"
  md_genreNames :: "string list"

record mangaFiles =
  f_thumbnail :: "string option"
  f_coverImage :: "string option"

definition uploadOptional :: "collaborators \<Rightarrow> string option \<Rightarrow> error + string option" where
  "uploadOptional ext file =
     (case file of
        None \<Rightarrow> Inr None
      | Some f \<Rightarrow> (case uploadSingleImage ext f of Inl e \<Rightarrow> Inl e | Inr url \<Rightarrow> Inr (Some url)))"

definition connectOperations :: "collaborators \<Rightarrow> string list \<Rightarrow> nameRow list" where
  "connectOperations ext names =
     map (\<lambda>name. \<lparr>r_name = name, r_slug = createSlug ext name\<rparr>) names"

fun connectOrCreate :: "nameRow list \<Rightarrow> nameRow list \<Rightarrow> error + nameRow list" where
  "connectOrCreate [] table = Inr table"
| "connectOrCreate (operation # operations) table =
     (if r_name operation \<in> set (map r_name table) then connectOrCreate operations table
      else if r_slug operation \<in> set (map r_slug table) then Inl (PrismaError ''P2002'')
      else connectOrCreate operations (table @ [operation]))"

definition manga_create :: "manga \<Rightarrow> nameRow list \<Rightarrow> nameRow list \<Rightarrow> db \<Rightarrow> error + db" where
  "manga_create row authorOperations genreOperations s =
     (if m_slug row \<in> set (map m_slug (mangas s)) then Inl (PrismaError ''P2002'')
      else
        (case connectOrCreate authorOperations (authors s) of
           Inl e \<Rightarrow> Inl e
         | Inr authorRows \<Rightarrow>
             (case connectOrCreate genreOperations (genres s) of
                Inl e \<Rightarrow> Inl e
              | Inr genreRows \<Rightarrow>
                  Inr (s\<lparr>mangas := mangas s @ [row], authors := authorRows,
                         genres := genreRows, nextId := Suc (nextId s)\<rparr>))))"

definition newManga :: "collaborators \<Rightarrow> mangaData \<Rightarrow> nat \<Rightarrow> role \<Rightarrow> db \<Rightarrow> manga" where
  "newManga ext mangaData userId userRole s =
     \<lparr>m_id = nextId s, m_title = md_title mangaData,
      m_slug = createSlug ext (md_title mangaData),
      m_status = (case md_status mangaData of None \<Rightarrow> ONGOING | Some st \<Rightarrow> st),
      m_approvalStatus = (if userRole = ADMIN then APPROVED else PENDING),
      m_uploaderId = userId,
      m_authors = md_authorNames mangaData,
      m_genres = md_genreNames mangaData,
      m_totalChapters = 0, m_totalViews = 0, m_lastChapterAt = None\<rparr>"

definition createManga ::
  "collaborators \<Rightarrow> mangaData \<Rightarrow> mangaFiles \<Rightarrow> nat \<Rightarrow> role \<Rightarrow> db
     \<Rightarrow> (error + manga \<times> string) \<times> db" where
  "createManga ext mangaData files userId userRole s =
     (case uploadOptional ext (f_thumbnail files) of
        Inl e \<Rightarrow> (Inl e, s)
      | Inr thumbnail \<Rightarrow>
          (case uploadOptional ext (f_coverImage files) of
             Inl e \<Rightarrow> (Inl e, s)
           | Inr coverImage \<Rightarrow>
               (case manga_create (newManga ext mangaData userId userRole s)
                       (connectOperations ext (md_authorNames mangaData))
                       (connectOperations ext (md_genreNames mangaData)) s of
                  Inl e \<Rightarrow> (Inl e, s)
                | Inr s1 \<Rightarrow>
                    (Inr (newManga ext mangaData userId userRole s,
                          if userRole = ADMIN then ''Manga created successfully''
                          else ''Manga submitted for approval''), s1))))"

record mangaUpdate =
  mu_title :: "string option"
  mu_slug :: "string option"
  mu_status :: "mangaStatus option"
  mu_approvalStatus :: "approvalStatus option"
  mu_uploaderId :: "nat option"
  mu_totalChapters :: "int option"
  mu_totalViews :: "int option"

definition applyMangaUpdate :: "mangaUpdate \<Rightarrow> manga \<Rightarrow> manga" where
  "applyMangaUpdate u m =
     m\<lparr>m_title := (case mu_title u of None \<Rightarrow> m_title m | Some v \<Rightarrow> v),
       m_slug := (case mu_slug u of None \<Rightarrow> m_slug m | Some v \<Rightarrow> v),
       m_status := (case mu_status u of None \<Rightarrow> m_status m | Some v \<Rightarrow> v),
       m_approvalStatus := (case mu_approvalStatus u of None \<Rightarrow> m_approvalStatus m | Some v \<Rightarrow> v),
       m_uploaderId := (case mu_uploaderId u of None \<Rightarrow> m_uploaderId m | Some v \<Rightarrow> v),
       m_totalChapters := (case mu_totalChapters u of None \<Rightarrow> m_totalChapters m | Some v \<Rightarrow> v),
       m_totalViews := (case mu_totalViews u of None \<Rightarrow> m_totalViews m | Some v \<Rightarrow> v)\<rparr>"

definition slugTaken :: "nat \<Rightarrow> string option \<Rightarrow> db \<Rightarrow> bool" where
  "slugTaken k slug s =
     (case slug of
        None \<Rightarrow> False
      | Some v \<Rightarrow> list_ex (\<lambda>m. m_id m \<noteq> k \<and> m_slug m = v) (mangas s))"

definition updateManga ::
  "nat \<Rightarrow> mangaUpdate \<Rightarrow> nat \<Rightarrow> role \<Rightarrow> db \<Rightarrow> (error + manga) \<times> db" where
  "updateManga mangaId updateData userId userRole s =
     (case manga_findUnique mangaId s of
        None \<Rightarrow> (Inl (AppError ''Manga not found'' 404), s)
      | Some manga \<Rightarrow>
          if m_uploaderId manga \<noteq> userId \<and> userRole \<noteq> ADMIN
          then (Inl (AppError ''Not authorized to update this manga'' 403), s)
          else if slugTaken mangaId (mu_slug updateData) s
          then (Inl (PrismaError ''P2002''), s)
          else
            (case manga_update mangaId (applyMangaUpdate updateData) s of
               Inl e \<Rightarrow> (Inl e, s)
             | Inr s1 \<Rightarrow> (Inr (applyMangaUpdate updateData manga), s1)))"

definition manga_delete :: "collaborators \<Rightarrow> nat \<Rightarrow> db \<Rightarrow> error + db" where
  "manga_delete ext k s =
     (case manga_findUnique k s of
        None \<Rightarrow> Inl (PrismaError ''P2025'')
      | Some _ \<Rightarrow>
          (case onMangaDelete ext k s of
             Inl code \<Rightarrow> Inl (PrismaError code)
           | Inr s1 \<Rightarrow> Inr (s1\<lparr>mangas := filter (\<lambda>m. m_id m \<noteq> k) (mangas s1)\<rparr>)))"

definition deleteManga ::
  "collaborators \<Rightarrow> nat \<Rightarrow> nat \<Rightarrow> role \<Rightarrow> db \<Rightarrow> (error + bool) \<times> db" where
  "deleteManga ext mangaId userId userRole s =
     (case manga_findUnique mangaId s of
        None \<Rightarrow> (Inl (AppError ''Manga not found'' 404), s)
      | Some manga \<Rightarrow>
          if m_uploaderId manga \<noteq> userId \<and> userRole \<noteq> ADMIN
          then (Inl (AppError ''Not authorized to delete this manga'' 403), s)
          else
            (case manga_delete ext mangaId s of
               Inl e \<Rightarrow> (Inl e, s)
             | Inr s1 \<Rightarrow> (Inr True, s1)))"

text \<open>
  \<^verbatim>\<open>getRandomManga(limit)\<close>. The loop
  \<^verbatim>\<open>for (let i = shuffled.length - 1; i > 0; i--)\<close> draws
  \<^verbatim>\<open>j = Math.floor(Math.random() * (i + 1))\<close> and exchanges the entries at \<open>i\<close> and
  \<open>j\<close>. The draws are the list \<open>js\<close>, in the order the loop makes them; the generator
  never runs dry, so the list is given long enough (the second equation is never
  reached then). \<open>slice0 xs n\<close> is \<^verbatim>\<open>xs.slice(0, n)\<close>, where a negative \<open>n\<close>
  counts from the end. The rows are then fetched with \<^verbatim>\<open>id: { in: selectedIds }\<close>,
  which returns them in the order of the table.
\<close>

fun fisherYates :: "nat \<Rightarrow> nat list \<Rightarrow> 'a list \<Rightarrow> 'a list" where
  "fisherYates 0 js xs = xs"
| "fisherYates (Suc i) [] xs = xs"
| "fisherYates (Suc i) (j # js) xs = fisherYates i js (xs[Suc i := xs ! j, j := xs ! Suc i])"

definition slice0 :: "'a list \<Rightarrow> int \<Rightarrow> 'a list" where
  "slice0 xs n = (if 0 \<le> n then take (nat n) xs else take (nat (int (length xs) + n)) xs)"

definition approvedIds :: "db \<Rightarrow> nat list" where
  "approvedIds s = map m_id (filter (\<lambda>m. m_approvalStatus m = APPROVED) (mangas s))"

definition selectedIds :: "nat list \<Rightarrow> int \<Rightarrow> db \<Rightarrow> nat list" where
  "selectedIds js limit s =
     slice0 (fisherYates (length (approvedIds s) - 1) js (approvedIds s)) limit"

definition getRandomManga :: "nat list \<Rightarrow> int \<Rightarrow> db \<Rightarrow> manga list" where
  "getRandomManga js limit s =
     (if length (filter (\<lambda>m. m_approvalStatus m = APPROVED) (mangas s)) = 0 then []
      else filter (\<lambda>m. m_id m \<in> set (selectedIds js limit s)) (mangas s))"

text \<open>
  The draws the loop can make on a list whose last index is \<open>i\<close>: one for each index
  from \<open>i\<close> down to 1, each between 0 and the index it is drawn for, which is the range
  of \<^verbatim>\<open>Math.floor(Math.random() * (i + 1))\<close>.
\<close>

fun validDraws :: "nat \<Rightarrow> nat list \<Rightarrow> bool" where
  "validDraws 0 js = (js = [])"
| "validDraws (Suc i) [] = False"
| "validDraws (Suc i) (j # js) = (j \<le> Suc i \<and> validDraws i js)"

section \<open>Bookmark service\<close>

text \<open>
  A bookmark is addressed by the compound unique key \<^verbatim>\<open>userId_mangaId\<close>; the store
  refuses a second row with the same key (\<^verbatim>\<open>P2002\<close>).
\<close>

definition bookmark_findUnique :: "nat \<Rightarrow> nat \<Rightarrow> db \<Rightarrow> bookmark option" where
  "bookmark_findUnique u k s = List.find (\<lambda>b. b_userId b = u \<and> b_mangaId b = k) (bookmarks s)"

definition bookmark_create :: "nat \<Rightarrow> nat \<Rightarrow> nat \<Rightarrow> db \<Rightarrow> error + db" where
  "bookmark_create now u k s =
     (case bookmark_findUnique u k s of
        Some _ \<Rightarrow> Inl (PrismaError ''P2002'')
      | None \<Rightarrow>
          Inr (s\<lparr>bookmarks := bookmarks s @
                    [\<lparr>b_id = nextId s, b_userId = u, b_mangaId = k, b_createdAt = now\<rparr>],
                 nextId := Suc (nextId s)\<rparr>))"

definition bookmark_delete :: "nat \<Rightarrow> nat \<Rightarrow> db \<Rightarrow> error + db" where
  "bookmark_delete u k s =
     (case bookmark_findUnique u k s of
        None \<Rightarrow> Inl (PrismaError ''P2025'')
      | Some _ \<Rightarrow>
          Inr (s\<lparr>bookmarks := filter (\<lambda>b. \<not> (b_userId b = u \<and> b_mangaId b = k)) (bookmarks s)\<rparr>))"

record toggleResult =
  tr_action :: string
  tr_isBookmarked :: bool

definition toggleBookmark :: "nat \<Rightarrow> nat \<Rightarrow> nat \<Rightarrow> db \<Rightarrow> (error + toggleResult) \<times> db" where
  "toggleBookmark now userId mangaId s =
     (case manga_findUnique mangaId s of
        None \<Rightarrow> (Inl (AppError ''Manga not found'' 404), s)
      | Some manga \<Rightarrow>
          (case bookmark_findUnique userId mangaId s of
             Some existingBookmark \<Rightarrow>
               (case bookmark_delete userId mangaId s of
                  Inl e \<Rightarrow> (Inl e, s)
                | Inr s1 \<Rightarrow> (Inr \<lparr>tr_action = ''removed'', tr_isBookmarked = False\<rparr>, s1))
           | None \<Rightarrow>
               (case bookmark_create now userId mangaId s of
                  Inl e \<Rightarrow> (Inl e, s)
                | Inr s1 \<Rightarrow> (Inr \<lparr>tr_action = ''added'', tr_isBookmarked = True\<rparr>, s1))))"

definition checkBookmark :: "nat \<Rightarrow> nat \<Rightarrow> db \<Rightarrow> bool \<times> nat option" where
  "checkBookmark userId mangaId s =
     (case bookmark_findUnique userId mangaId s of
        None \<Rightarrow> (False, None)
      | Some b \<Rightarrow> (True, Some (b_id b)))"

section \<open>Reading-history service\<close>

subsection \<open>JavaScript numbers\<close>

text \<open>
  A JavaScript number is an IEEE 754 binary64 value, and \<^verbatim>\<open>/\<close> and \<^verbatim>\<open>*\<close> return the
  binary64 value nearest to the exact result, ties to the even significand. \<open>double x\<close>
  is that value for a rational \<open>x\<close>: with \<open>2 ^ e \<le> \<bar>x\<bar> < 2 ^ (e + 1)\<close> the neighbouring
  values are \<open>2 ^ (e - 52)\<close> apart. The exponent is not bounded here (no overflow to
  \<^verbatim>\<open>Infinity\<close> above \<open>2 ^ 1024\<close>, no gradual underflow below \<open>2 ^ - 1022\<close>); quotients and
  percentages of page numbers are far inside that range. \<^verbatim>\<open>Math.round\<close> returns the
  nearest integer, a half going up.
\<close>

definition ilog2 :: "rat \<Rightarrow> int" where
  "ilog2 x =
     (case quotient_of x of
        (a, b) \<Rightarrow> let d = bitlen a - bitlen b in if 2 powi d \<le> x then d else d - 1)"

definition roundTiesToEven :: "rat \<Rightarrow> int" where
  "roundTiesToEven y =
     (let n = \<lfloor>y\<rfloor>; r = y - of_int n
      in if r < 1 / 2 then n else if 1 / 2 < r then n + 1 else if even n then n else n + 1)"

definition double :: "rat \<Rightarrow> rat" where
  "double x =
     (if x = 0 then 0
      else let u = 2 powi (ilog2 \<bar>x\<bar> - 52) in of_int (roundTiesToEven (x / u)) * u)"

definition Math_round :: "rat \<Rightarrow> int" where
  "Math_round x = \<lfloor>x + 1 / 2\<rfloor>"

subsection \<open>Saving progress\<close>

text \<open>
  \<^verbatim>\<open>currentPage\<close> and \<^verbatim>\<open>totalPages\<close> are integers (the route validates them with
  \<^verbatim>\<open>isInt\<close>); \<^verbatim>\<open>isCompleted\<close> is optional, and an absent one is falsy.
\<close>

record progressData =
  pd_currentPage :: int
  pd_totalPages :: int
  pd_isCompleted :: "bool option"

definition progressPercentOf :: "int \<Rightarrow> int \<Rightarrow> int" where
  "progressPercentOf currentPage totalPages =
     (if totalPages > 0
      then Math_round (double (double (of_int currentPage / of_int totalPages) * 100))
      else 0)"

definition readingHistory_findUnique :: "nat \<Rightarrow> nat \<Rightarrow> db \<Rightarrow> readingHistory option" where
  "readingHistory_findUnique u c s =
     List.find (\<lambda>h. h_userId h = u \<and> h_chapterId h = c) (readingHistories s)"

text \<open>
  \<^verbatim>\<open>prisma.readingHistory.upsert\<close> on the compound unique key \<^verbatim>\<open>userId_chapterId\<close>:
  the row with that key is rewritten by \<open>upd\<close>, or the row \<open>crt id\<close> is inserted when
  there is none. The row written is returned.
\<close>

definition readingHistory_upsert ::
  "nat \<Rightarrow> nat \<Rightarrow> (readingHistory \<Rightarrow> readingHistory) \<Rightarrow> (nat \<Rightarrow> readingHistory) \<Rightarrow> db
     \<Rightarrow> readingHistory \<times> db" where
  "readingHistory_upsert u c upd crt s =
     (case readingHistory_findUnique u c s of
        Some h \<Rightarrow>
          (upd h,
           s\<lparr>readingHistories :=
                map (\<lambda>r. if h_userId r = u \<and> h_chapterId r = c then upd r else r)
                  (readingHistories s)\<rparr>)
      | None \<Rightarrow>
          (crt (nextId s),
           s\<lparr>readingHistories := readingHistories s @ [crt (nextId s)],
             nextId := Suc (nextId s)\<rparr>))"

text \<open>
  The two payloads of the upsert. Both carry the \<^verbatim>\<open>progressPercent\<close> and
  \<^verbatim>\<open>isCompleted\<close> that \<^verbatim>\<open>saveProgress\<close> computes once from the request:
  \<^verbatim>\<open>isCompleted || progressPercent >= 100\<close>.
\<close>

definition isCompletedOf :: "progressData \<Rightarrow> bool" where
  "isCompletedOf progressData =
     ((case pd_isCompleted progressData of None \<Rightarrow> False | Some b \<Rightarrow> b)
      \<or> progressPercentOf (pd_currentPage progressData) (pd_totalPages progressData) \<ge> 100)"

definition historyUpdate :: "nat \<Rightarrow> progressData \<Rightarrow> readingHistory \<Rightarrow> readingHistory" where
  "historyUpdate now progressData h =
     h\<lparr>h_currentPage := pd_currentPage progressData,
       h_totalPages := pd_totalPages progressData,
       h_progressPercent :=
         progressPercentOf (pd_currentPage progressData) (pd_totalPages progressData),
       h_isCompleted := isCompletedOf progressData,
       h_lastReadAt := now\<rparr>"

definition historyCreate ::
  "nat \<Rightarrow> nat \<Rightarrow> nat \<Rightarrow> nat \<Rightarrow> progressData \<Rightarrow> nat \<Rightarrow> readingHistory" where
  "historyCreate now userId chapterId mangaId progressData i =
     \<lparr>h_id = i, h_userId = userId, h_chapterId = chapterId, h_mangaId = mangaId,
      h_currentPage = pd_currentPage progressData,
      h_totalPages = pd_totalPages progressData,
      h_progressPercent =
        progressPercentOf (pd_currentPage progressData) (pd_totalPages progressData),
      h_isCompleted = isCompletedOf progressData,
      h_lastReadAt = now\<rparr>"

definition saveProgress ::
  "nat \<Rightarrow> nat \<Rightarrow> nat \<Rightarrow> progressData \<Rightarrow> db \<Rightarrow> (error + readingHistory) \<times> db" where
  "saveProgress now userId chapterId progressData s =
     (case chapter_findUnique chapterId s of
        None \<Rightarrow> (Inl (AppError ''Chapter not found'' 404), s)
      | Some chapter \<Rightarrow>
          (case readingHistory_upsert userId chapterId
                  (historyUpdate now progressData)
                  (historyCreate now userId chapterId (c_mangaId chapter) progressData) s of
             (history, s1) \<Rightarrow>
               (case chapter_update chapterId (\<lambda>c. c\<lparr>c_totalViews := c_totalViews c + 1\<rparr>) s1 of
                  Inl e \<Rightarrow> (Inl e, s1)
                | Inr s2 \<Rightarrow>
                    (case manga_update (c_mangaId chapter)
                            (\<lambda>m. m\<lparr>m_totalViews := m_totalViews m + 1\<rparr>) s2 of
                       Inl e \<Rightarrow> (Inl e, s2)
                     | Inr s3 \<Rightarrow> (Inr history, s3)))))"

text \<open>The upsert that \<^verbatim>\<open>saveProgress\<close> performs for a chapter of the manga \<open>mangaId\<close>.\<close>

definition savedHistory :: "nat \<Rightarrow> nat \<Rightarrow> nat \<Rightarrow> nat \<Rightarrow> progressData \<Rightarrow> db \<Rightarrow> readingHistory \<times> db" where
  "savedHistory now userId chapterId mangaId progressData s =
     readingHistory_upsert userId chapterId (historyUpdate now progressData)
       (historyCreate now userId chapterId mangaId progressData) s"

subsection \<open>Continue reading\<close>

text \<open>
  \<^verbatim>\<open>findMany({ where: { userId }, orderBy: { lastReadAt: 'desc' }, distinct: ['mangaId'],
  take: parseInt(limit), include: { manga, chapter } })\<close>. Prisma orders the rows, keeps
  the first row of every distinct \<^verbatim>\<open>mangaId\<close> in that order, and then takes
  \<^verbatim>\<open>take\<close> rows: from the start of the list when \<^verbatim>\<open>take\<close> is not negative, from its
  end when it is. Rows with equal \<^verbatim>\<open>lastReadAt\<close> keep their table order.

  The parameter is declared \<^verbatim>\<open>limit = 10\<close>: an omitted argument (\<open>None\<close>) is 10. A
  given limit is an integer, and \<^verbatim>\<open>parseInt\<close> of an integer, or of its decimal string,
  is that integer.

  Every selected row comes with the manga and the chapter it references, \<^verbatim>\<open>null\<close>
  (\<open>None\<close>) when that row is not in the store.
\<close>

fun distinctBy :: "('a \<Rightarrow> 'k) \<Rightarrow> 'a list \<Rightarrow> 'a list" where
  "distinctBy f [] = []"
| "distinctBy f (x # xs) = x # distinctBy f (filter (\<lambda>y. f y \<noteq> f x) xs)"

definition orderByLastReadAtDesc :: "readingHistory list \<Rightarrow> readingHistory list" where
  "orderByLastReadAtDesc rows = sort_key (\<lambda>h. - int (h_lastReadAt h)) rows"

definition latestPerManga :: "nat \<Rightarrow> db \<Rightarrow> readingHistory list" where
  "latestPerManga userId s =
     distinctBy h_mangaId
       (orderByLastReadAtDesc (filter (\<lambda>h. h_userId h = userId) (readingHistories s)))"

definition parseInt_limit :: "int option \<Rightarrow> int" where
  "parseInt_limit limit = (case limit of None \<Rightarrow> 10 | Some n \<Rightarrow> n)"

definition prisma_take :: "int \<Rightarrow> 'a list \<Rightarrow> 'a list" where
  "prisma_take n rows =
     (if 0 \<le> n then take (nat n) rows else drop (length rows - nat (- n)) rows)"

record historyItem =
  hi_history :: readingHistory
  hi_manga :: "manga option"
  hi_chapter :: "chapterRow option"

definition includeMangaChapter :: "db \<Rightarrow> readingHistory \<Rightarrow> historyItem" where
  "includeMangaChapter s h =
     \<lparr>hi_history = h, hi_manga = manga_findUnique (h_mangaId h) s,
      hi_chapter = chapter_findUnique (h_chapterId h) s\<rparr>"

definition readingHistory_findMany_latest :: "nat \<Rightarrow> int \<Rightarrow> db \<Rightarrow> historyItem list" where
  "readingHistory_findMany_latest userId n s =
     map (includeMangaChapter s) (prisma_take n (latestPerManga userId s))"

text \<open>
  The result is reshaped item by item: \<^verbatim>\<open>item.manga.authors.map(a => a.author)\<close> and
  \<^verbatim>\<open>item.manga.genres.map(g => g.genre)\<close> replace the join rows of the manga by its
  authors and genres. The manga of the model carries these directly, so the reshaped
  manga is the manga itself. Reading \<^verbatim>\<open>authors\<close> of a \<^verbatim>\<open>null\<close> manga throws a
  \<^verbatim>\<open>TypeError\<close>, and \<^verbatim>\<open>Array.prototype.map\<close> ends with the first item that throws.
  The chapter is copied and never dereferenced.
\<close>

record formattedHistory =
  fh_history :: readingHistory
  fh_manga :: manga
  fh_chapter :: "chapterRow option"

definition formatItem :: "historyItem \<Rightarrow> error + formattedHistory" where
  "formatItem item =
     (case hi_manga item of
        None \<Rightarrow> Inl (TypeError ''item.manga is null'')
      | Some manga \<Rightarrow>
          Inr \<lparr>fh_history = hi_history item, fh_manga = manga, fh_chapter = hi_chapter item\<rparr>)"

fun mapThrowing :: "('a \<Rightarrow> error + 'b) \<Rightarrow> 'a list \<Rightarrow> error + 'b list" where
  "mapThrowing f [] = Inr []"
| "mapThrowing f (x # xs) =
     (case f x of
        Inl e \<Rightarrow> Inl e
      | Inr y \<Rightarrow> (case mapThrowing f xs of Inl e \<Rightarrow> Inl e | Inr ys \<Rightarrow> Inr (y # ys)))"

definition getContinueReading :: "nat \<Rightarrow> int option \<Rightarrow> db \<Rightarrow> error + formattedHistory list" where
  "getContinueReading userId limit s =
     mapThrowing formatItem (readingHistory_findMany_latest userId (parseInt_limit limit) s)"

section \<open>Properties: vocabulary\<close>

text \<open>
  The number of chapter rows that reference a manga, the counter the manga row holds,
  and the invariant that the two agree for every manga of the store. Chapter ids are
  primary keys: no two rows share one, and the store has issued each of them.
\<close>

definition chapterCountOf :: "nat \<Rightarrow> db \<Rightarrow> int" where
  "chapterCountOf k s = int (length (filter (\<lambda>c. c_mangaId c = k) (chapters s)))"

definition totalChaptersOf :: "nat \<Rightarrow> db \<Rightarrow> int option" where
  "totalChaptersOf k s = map_option m_totalChapters (manga_findUnique k s)"

definition chapterCountsOk :: "db \<Rightarrow> bool" where
  "chapterCountsOk s = list_all (\<lambda>m. m_totalChapters m = chapterCountOf (m_id m) s) (mangas s)"

definition chapterIdsOk :: "db \<Rightarrow> bool" where
  "chapterIdsOk s =
     (distinct (map c_id (chapters s)) \<and> list_all (\<lambda>c. c_id c < nextId s) (chapters s))"

text \<open>A sequence of chapter creations and deletions, run in order against the store.\<close>

datatype chapterOp =
    CreateChapter nat nat chapterData "string list" nat role
  | DeleteChapter nat nat role

fun runChapterOp :: "collaborators \<Rightarrow> chapterOp \<Rightarrow> db \<Rightarrow> db" where
  "runChapterOp ext (CreateChapter now mangaId chapterData files userId userRole) s =
     snd (createChapter ext now mangaId chapterData files userId userRole s)"
| "runChapterOp ext (DeleteChapter chapterId userId userRole) s =
     snd (deleteChapter chapterId userId userRole s)"

fun runChapterOps :: "collaborators \<Rightarrow> chapterOp list \<Rightarrow> db \<Rightarrow> db" where
  "runChapterOps ext [] s = s"
| "runChapterOps ext (op # ops) s = runChapterOps ext ops (runChapterOp ext op s)"

text \<open>An outcome is a refusal when it is an \<^verbatim>\<open>AppError\<close> with status 403.\<close>

definition forbidden :: "error + 'a \<Rightarrow> bool" where
  "forbidden r = (case r of Inl (AppError msg code) \<Rightarrow> code = 403 | _ \<Rightarrow> False)"

text \<open>
  A small store for concrete runs: one approved manga (id 10) uploaded by user 7, holding
  one chapter (id 20) numbered 1; collaborators that slugify to the text itself, host every file
  under its own name and attach no referential action.
\<close>

definition demoManga :: manga where
  "demoManga = \<lparr>m_id = 10, m_title = ''Demo'', m_slug = ''demo'', m_status = ONGOING,
                 m_approvalStatus = APPROVED, m_uploaderId = 7, m_authors = [], m_genres = [],
                 m_totalChapters = 1, m_totalViews = 0, m_lastChapterAt = Some 5\<rparr>"

definition demoChapter :: chapterRow where
  "demoChapter = \<lparr>c_id = 20, c_mangaId = 10, c_chapterNumber = 1, c_images = [''p1''],
                   c_totalImages = 1, c_totalViews = 0, c_publishedAt = 5\<rparr>"

definition demoStore :: db where
  "demoStore = \<lparr>mangas = [demoManga], chapters = [demoChapter], bookmarks = [],
                 readingHistories = [], chapterViews = [], authors = [], genres = [],
                 nextId = 30\<rparr>"

definition emptyStore :: db where
  "emptyStore = \<lparr>mangas = [], chapters = [], bookmarks = [], readingHistories = [],
                  chapterViews = [], authors = [], genres = [], nextId = 0\<rparr>"

definition plainCollaborators :: collaborators where
  "plainCollaborators = \<lparr>createSlug = (\<lambda>t. t), uploadSingleImage = Inr, uploadMultiple = Inr,
                          onMangaDelete = (\<lambda>k. Inr)\<rparr>"

text \<open>The demonstration store after user 7 has bookmarked the manga.\<close>

definition demoBookmarked :: db where
  "demoBookmarked =
     demoStore\<lparr>bookmarks := [\<lparr>b_id = 21, b_userId = 7, b_mangaId = 10, b_createdAt = 3\<rparr>]\<rparr>"



text \<open>A catalogue of five approved mangas and one pending manga.\<close>

definition catalogEntry :: "nat \<Rightarrow> string \<Rightarrow> approvalStatus \<Rightarrow> manga" where
  "catalogEntry i name st =
     \<lparr>m_id = i, m_title = name, m_slug = name, m_status = ONGOING, m_approvalStatus = st,
      m_uploaderId = 7, m_authors = [], m_genres = [], m_totalChapters = 0, m_totalViews = 0,
      m_lastChapterAt = None\<rparr>"

definition demoCatalog :: db where
  "demoCatalog =
     emptyStore\<lparr>mangas :=
       [catalogEntry 11 ''a'' APPROVED, catalogEntry 12 ''b'' APPROVED,
        catalogEntry 13 ''c'' APPROVED, catalogEntry 14 ''d'' APPROVED,
        catalogEntry 15 ''e'' APPROVED, catalogEntry 16 ''f'' PENDING],
       nextId := 17\<rparr>"


text \<open>
  The store after a successful \<^verbatim>\<open>createChapter\<close> and after a successful
  \<^verbatim>\<open>deleteChapter\<close>: the chapter row is written, then the counter of the owning manga.
\<close>

definition afterCreate :: "nat \<Rightarrow> nat \<Rightarrow> chapterRow \<Rightarrow> db \<Rightarrow> db" where
  "afterCreate now mangaId ch s =
     (chapter_create ch s)
       \<lparr>mangas := map (\<lambda>m. if m_id m = mangaId
            then m\<lparr>m_totalChapters := m_totalChapters m + 1, m_lastChapterAt := Some now\<rparr>
            else m) (mangas (chapter_create ch s))\<rparr>"

definition afterDelete :: "nat \<Rightarrow> nat \<Rightarrow> db \<Rightarrow> db" where
  "afterDelete chapterId mangaId s =
     s\<lparr>chapters := filter (\<lambda>x. c_id x \<noteq> chapterId) (chapters s),
       mangas := map (\<lambda>x. if m_id x = mangaId
                        then x\<lparr>m_totalChapters := m_totalChapters x - 1\<rparr> else x) (mangas s)\<rparr>"


section \<open>Lemmas about the store\<close>

lemma find_id_Some:
  "List.find P xs = Some x \<Longrightarrow> P x \<and> x \<in> set xs"
  by (induction xs) (auto split: if_splits)

lemma manga_findUnique_id:
  "manga_findUnique k s = Some m \<Longrightarrow> m_id m = k \<and> m \<in> set (mangas s)"
  unfolding manga_findUnique_def by (drule find_id_Some) simp

lemma chapter_findUnique_id:
  "chapter_findUnique k s = Some c \<Longrightarrow> c_id c = k \<and> c \<in> set (chapters s)"
  unfolding chapter_findUnique_def by (drule find_id_Some) simp

lemma manga_update_found:
  "manga_findUnique k s = Some m \<Longrightarrow>
     manga_update k f s = Inr (s\<lparr>mangas := map (\<lambda>m. if m_id m = k then f m else m) (mangas s)\<rparr>)"
  by (simp add: manga_update_def)

lemma manga_findUnique_chapters_irrelevant [simp]:
  "manga_findUnique k (s\<lparr>chapters := cs\<rparr>) = manga_findUnique k s"
  "manga_findUnique k (s\<lparr>nextId := n\<rparr>) = manga_findUnique k s"
  "manga_findUnique k (s\<lparr>readingHistories := hs\<rparr>) = manga_findUnique k s"
  "manga_findUnique k (s\<lparr>bookmarks := bs\<rparr>) = manga_findUnique k s"
  "manga_findUnique k (s\<lparr>chapterViews := vs\<rparr>) = manga_findUnique k s"
  by (simp_all add: manga_findUnique_def)

lemma chapter_findUnique_irrelevant [simp]:
  "chapter_findUnique k (s\<lparr>mangas := ms\<rparr>) = chapter_findUnique k s"
  "chapter_findUnique k (s\<lparr>nextId := n\<rparr>) = chapter_findUnique k s"
  "chapter_findUnique k (s\<lparr>readingHistories := hs\<rparr>) = chapter_findUnique k s"
  "chapter_findUnique k (s\<lparr>bookmarks := bs\<rparr>) = chapter_findUnique k s"
  "chapter_findUnique k (s\<lparr>chapterViews := vs\<rparr>) = chapter_findUnique k s"
  by (simp_all add: chapter_findUnique_def)

lemma find_map_keep_id:
  assumes "\<And>m. m_id (f m) = m_id m"
  shows "List.find (\<lambda>m. m_id m = k) (map (\<lambda>m. if m_id m = j then f m else m) ms)
           = (if k = j then map_option f (List.find (\<lambda>m. m_id m = k) ms)
              else List.find (\<lambda>m. m_id m = k) ms)"
  using assms by (induction ms) auto

lemma find_chapter_map_keep_id:
  assumes "\<And>c. c_id (f c) = c_id c"
  shows "List.find (\<lambda>c. c_id c = k) (map (\<lambda>c. if c_id c = j then f c else c) cs)
           = (if k = j then map_option f (List.find (\<lambda>c. c_id c = k) cs)
              else List.find (\<lambda>c. c_id c = k) cs)"
  using assms by (induction cs) auto

section \<open>The chapter service, branch by branch\<close>

lemma manga_findUnique_chapter_create [simp]:
  "manga_findUnique k (chapter_create row s) = manga_findUnique k s"
  by (simp add: manga_findUnique_def chapter_create_def)

lemma createChapter_no_manga:
  "manga_findUnique mangaId s = None \<Longrightarrow>
     createChapter ext now mangaId cd files userId userRole s
       = (Inl (AppError ''Manga not found'' 404), s)"
  by (simp add: createChapter_def)

lemma createChapter_forbidden:
  "manga_findUnique mangaId s = Some m \<Longrightarrow> m_uploaderId m \<noteq> userId \<Longrightarrow> userRole \<noteq> ADMIN \<Longrightarrow>
     createChapter ext now mangaId cd files userId userRole s
       = (Inl (AppError ''Not authorized to add chapters to this manga'' 403), s)"
  by (simp add: createChapter_def)

lemma createChapter_duplicate:
  "manga_findUnique mangaId s = Some m \<Longrightarrow> m_uploaderId m = userId \<or> userRole = ADMIN \<Longrightarrow>
   chapter_findFirst_number mangaId (cd_chapterNumber cd) s = Some c \<Longrightarrow>
     createChapter ext now mangaId cd files userId userRole s
       = (Inl (AppError ''Chapter number already exists'' 400), s)"
  by (auto simp: createChapter_def)

lemma createChapter_upload_failed:
  "manga_findUnique mangaId s = Some m \<Longrightarrow> m_uploaderId m = userId \<or> userRole = ADMIN \<Longrightarrow>
   chapter_findFirst_number mangaId (cd_chapterNumber cd) s = None \<Longrightarrow>
   resolveImages ext cd files = Inl e \<Longrightarrow>
     createChapter ext now mangaId cd files userId userRole s = (Inl e, s)"
  by (auto simp: createChapter_def)

lemma createChapter_no_images:
  "manga_findUnique mangaId s = Some m \<Longrightarrow> m_uploaderId m = userId \<or> userRole = ADMIN \<Longrightarrow>
   chapter_findFirst_number mangaId (cd_chapterNumber cd) s = None \<Longrightarrow>
   resolveImages ext cd files = Inr [] \<Longrightarrow>
     createChapter ext now mangaId cd files userId userRole s
       = (Inl (AppError ''No images provided'' 400), s)"
  by (auto simp: createChapter_def)

lemma createChapter_ok:
  "manga_findUnique mangaId s = Some m \<Longrightarrow> m_uploaderId m = userId \<or> userRole = ADMIN \<Longrightarrow>
   chapter_findFirst_number mangaId (cd_chapterNumber cd) s = None \<Longrightarrow>
   resolveImages ext cd files = Inr images \<Longrightarrow> images \<noteq> [] \<Longrightarrow>
     createChapter ext now mangaId cd files userId userRole s
       = (Inr (newChapter now mangaId cd images s),
          (chapter_create (newChapter now mangaId cd images s) s)
            \<lparr>mangas := map (\<lambda>m. if m_id m = mangaId
                 then m\<lparr>m_totalChapters := m_totalChapters m + 1, m_lastChapterAt := Some now\<rparr>
                 else m) (mangas (chapter_create (newChapter now mangaId cd images s) s))\<rparr>)"
  by (auto simp: createChapter_def Let_def manga_update_def)

lemma deleteChapter_no_chapter:
  "chapter_findUnique chapterId s = None \<Longrightarrow>
     deleteChapter chapterId userId userRole s = (Inl (AppError ''Chapter not found'' 404), s)"
  by (simp add: deleteChapter_def)

lemma deleteChapter_no_manga:
  "chapter_findUnique chapterId s = Some c \<Longrightarrow> manga_findUnique (c_mangaId c) s = None \<Longrightarrow>
     deleteChapter chapterId userId userRole s = (Inl (TypeError ''chapter.manga is null''), s)"
  by (simp add: deleteChapter_def)

lemma deleteChapter_forbidden:
  "chapter_findUnique chapterId s = Some c \<Longrightarrow> manga_findUnique (c_mangaId c) s = Some m \<Longrightarrow>
   m_uploaderId m \<noteq> userId \<Longrightarrow> userRole \<noteq> ADMIN \<Longrightarrow>
     deleteChapter chapterId userId userRole s
       = (Inl (AppError ''Not authorized to delete this chapter'' 403), s)"
  by (simp add: deleteChapter_def)

lemma deleteChapter_ok:
  "chapter_findUnique chapterId s = Some c \<Longrightarrow> manga_findUnique (c_mangaId c) s = Some m \<Longrightarrow>
   m_uploaderId m = userId \<or> userRole = ADMIN \<Longrightarrow>
     deleteChapter chapterId userId userRole s
       = (Inr True,
          s\<lparr>chapters := filter (\<lambda>x. c_id x \<noteq> chapterId) (chapters s),
            mangas := map (\<lambda>x. if m_id x = c_mangaId c
                             then x\<lparr>m_totalChapters := m_totalChapters x - 1\<rparr> else x) (mangas s)\<rparr>)"
  by (auto simp: deleteChapter_def chapter_delete_def manga_update_def)

section \<open>The chapter counter\<close>

lemma filter_other_ids:
  "k \<notin> c_id ` set cs \<Longrightarrow> filter (\<lambda>x. c_id x \<noteq> k) cs = cs"
  by (induction cs) auto

lemma count_after_delete:
  "distinct (map c_id cs) \<Longrightarrow> c \<in> set cs \<Longrightarrow>
     int (length (filter P (filter (\<lambda>x. c_id x \<noteq> c_id c) cs)))
       = int (length (filter P cs)) - (if P c then 1 else 0)"
proof (induction cs)
  case Nil
  then show ?case by simp
next
  case (Cons x cs)
  show ?case
  proof (cases "x = c")
    case True
    with Cons.prems have "c_id c \<notin> c_id ` set cs" by auto
    then have "filter (\<lambda>x. c_id x \<noteq> c_id c) cs = cs" by (rule filter_other_ids)
    with True show ?thesis by (simp del: filter_filter)
  next
    case False
    with Cons.prems have c: "c \<in> set cs" and d: "distinct (map c_id cs)" and "c_id x \<noteq> c_id c"
      by auto
    with Cons.IH show ?thesis by (auto simp del: filter_filter split: if_splits)
  qed
qed

lemma chapterCountsOk_create:
  assumes "chapterCountsOk s" and "c_mangaId ch = mangaId"
  shows "chapterCountsOk
           ((chapter_create ch s)
              \<lparr>mangas := map (\<lambda>m. if m_id m = mangaId
                   then m\<lparr>m_totalChapters := m_totalChapters m + 1, m_lastChapterAt := Some now\<rparr>
                   else m) (mangas (chapter_create ch s))\<rparr>)"
  using assms
  by (auto simp: chapterCountsOk_def chapterCountOf_def chapter_create_def list_all_iff)

lemma chapterIdsOk_create:
  assumes "chapterIdsOk s" and "c_id ch = nextId s"
  shows "chapterIdsOk ((chapter_create ch s)\<lparr>mangas := ms\<rparr>)"
  using assms
  by (auto simp: chapterIdsOk_def chapter_create_def list_all_iff less_Suc_eq)

lemma chapterCountsOk_delete:
  assumes "chapterCountsOk s" and "chapterIdsOk s" and "chapter_findUnique chapterId s = Some c"
  shows "chapterCountsOk
           (s\<lparr>chapters := filter (\<lambda>x. c_id x \<noteq> chapterId) (chapters s),
              mangas := map (\<lambda>x. if m_id x = c_mangaId c
                               then x\<lparr>m_totalChapters := m_totalChapters x - 1\<rparr> else x) (mangas s)\<rparr>)"
proof -
  from assms(3) have c: "c_id c = chapterId" "c \<in> set (chapters s)"
    by (simp_all add: chapter_findUnique_id)
  from assms(2) have d: "distinct (map c_id (chapters s))"
    by (simp add: chapterIdsOk_def)
  have cnt: "int (length (filter (\<lambda>x. c_mangaId x = k) (filter (\<lambda>x. c_id x \<noteq> chapterId) (chapters s))))
               = int (length (filter (\<lambda>x. c_mangaId x = k) (chapters s)))
                 - (if c_mangaId c = k then 1 else 0)" for k
    using count_after_delete [OF d c(2), of "\<lambda>x. c_mangaId x = k"] c(1)
    by (simp del: filter_filter)
  from assms(1) show ?thesis
    by (auto simp: chapterCountsOk_def chapterCountOf_def list_all_iff cnt simp del: filter_filter)
qed

lemma chapterIdsOk_delete:
  assumes "chapterIdsOk s"
  shows "chapterIdsOk (s\<lparr>chapters := filter P (chapters s), mangas := ms\<rparr>)"
  using assms by (auto simp: chapterIdsOk_def list_all_iff distinct_map_filter)

lemma createChapter_outcome:
  obtains (failed) e where
      "createChapter ext now mangaId cd files userId userRole s = (Inl e, s)"
  | (created) m images where
      "manga_findUnique mangaId s = Some m"
      "createChapter ext now mangaId cd files userId userRole s
         = (Inr (newChapter now mangaId cd images s),
            afterCreate now mangaId (newChapter now mangaId cd images s) s)"
proof (cases "manga_findUnique mangaId s")
  case None
  then show ?thesis using failed createChapter_no_manga by blast
next
  case (Some m)
  note m = this
  show ?thesis
  proof (cases "m_uploaderId m = userId \<or> userRole = ADMIN")
    case False
    with m show ?thesis using failed createChapter_forbidden by blast
  next
    case True
    note g = this
    show ?thesis
    proof (cases "chapter_findFirst_number mangaId (cd_chapterNumber cd) s")
      case (Some c)
      with m g show ?thesis using failed createChapter_duplicate by blast
    next
      case None
      note n = this
      show ?thesis
      proof (cases "resolveImages ext cd files")
        case (Inl e)
        with m g n show ?thesis using failed createChapter_upload_failed by blast
      next
        case (Inr images)
        note i = this
        show ?thesis
        proof (cases "images = []")
          case True
          with m g n i show ?thesis using failed createChapter_no_images by blast
        next
          case False
          from createChapter_ok [OF m g n i False]
          show ?thesis using created m by (simp add: afterCreate_def)
        qed
      qed
    qed
  qed
qed

lemma deleteChapter_outcome:
  obtains (failed) e where "deleteChapter chapterId userId userRole s = (Inl e, s)"
  | (deleted) c m where
      "chapter_findUnique chapterId s = Some c"
      "manga_findUnique (c_mangaId c) s = Some m"
      "deleteChapter chapterId userId userRole s = (Inr True, afterDelete chapterId (c_mangaId c) s)"
proof (cases "chapter_findUnique chapterId s")
  case None
  then show ?thesis using failed deleteChapter_no_chapter by blast
next
  case (Some c)
  note c = this
  show ?thesis
  proof (cases "manga_findUnique (c_mangaId c) s")
    case None
    with c show ?thesis using failed deleteChapter_no_manga by blast
  next
    case (Some m)
    note m = this
    show ?thesis
    proof (cases "m_uploaderId m = userId \<or> userRole = ADMIN")
      case False
      with c m show ?thesis using failed deleteChapter_forbidden by blast
    next
      case True
      from deleteChapter_ok [OF c m True]
      show ?thesis using deleted c m by (simp add: afterDelete_def)
    qed
  qed
qed

lemma inv_afterCreate:
  assumes "chapterCountsOk s" "chapterIdsOk s"
  shows "chapterCountsOk (afterCreate now mangaId (newChapter now mangaId cd images s) s)"
    and "chapterIdsOk (afterCreate now mangaId (newChapter now mangaId cd images s) s)"
  unfolding afterCreate_def
  using assms
  by (simp_all add: chapterCountsOk_create chapterIdsOk_create newChapter_def)

lemma inv_afterDelete:
  assumes "chapterCountsOk s" "chapterIdsOk s" "chapter_findUnique chapterId s = Some c"
  shows "chapterCountsOk (afterDelete chapterId (c_mangaId c) s)"
    and "chapterIdsOk (afterDelete chapterId (c_mangaId c) s)"
  unfolding afterDelete_def
  using assms
  by (simp_all add: chapterCountsOk_delete chapterIdsOk_delete)

lemma inv_runChapterOp:
  assumes "chapterCountsOk s \<and> chapterIdsOk s"
  shows "chapterCountsOk (runChapterOp ext op s) \<and> chapterIdsOk (runChapterOp ext op s)"
proof (cases op)
  case (CreateChapter now mangaId cd files userId userRole)
  show ?thesis
  proof (cases rule: createChapter_outcome [of ext now mangaId cd files userId userRole s])
    case (failed e)
    with assms CreateChapter show ?thesis by simp
  next
    case (created m images)
    with assms CreateChapter show ?thesis by (simp add: inv_afterCreate)
  qed
next
  case (DeleteChapter chapterId userId userRole)
  show ?thesis
  proof (cases rule: deleteChapter_outcome [of chapterId userId userRole s])
    case (failed e)
    with assms DeleteChapter show ?thesis by simp
  next
    case (deleted c m)
    with assms DeleteChapter show ?thesis by (simp add: inv_afterDelete)
  qed
qed

lemma inv_runChapterOps:
  "chapterCountsOk s \<and> chapterIdsOk s \<Longrightarrow>
     chapterCountsOk (runChapterOps ext ops s) \<and> chapterIdsOk (runChapterOps ext ops s)"
proof (induction ops arbitrary: s)
  case Nil
  then show ?case by simp
next
  case (Cons op ops)
  from Cons.prems have "chapterCountsOk (runChapterOp ext op s) \<and> chapterIdsOk (runChapterOp ext op s)"
    by (rule inv_runChapterOp)
  then show ?case using Cons.IH by simp
qed

lemma totalChaptersOf_afterCreate:
  "totalChaptersOf k (afterCreate now mangaId ch s)
     = (if k = mangaId then map_option (\<lambda>n. n + 1) (totalChaptersOf k s) else totalChaptersOf k s)"
proof -
  have "List.find (\<lambda>m. m_id m = k)
          (map (\<lambda>m. if m_id m = mangaId
                 then m\<lparr>m_totalChapters := m_totalChapters m + 1, m_lastChapterAt := Some now\<rparr>
                 else m) (mangas s))
        = (if k = mangaId
           then map_option (\<lambda>m. m\<lparr>m_totalChapters := m_totalChapters m + 1, m_lastChapterAt := Some now\<rparr>)
                  (List.find (\<lambda>m. m_id m = k) (mangas s))
           else List.find (\<lambda>m. m_id m = k) (mangas s))"
    by (rule find_map_keep_id) simp
  then show ?thesis
    by (simp add: totalChaptersOf_def manga_findUnique_def afterCreate_def chapter_create_def
          option.map_comp comp_def)
qed

lemma totalChaptersOf_afterDelete:
  "totalChaptersOf k (afterDelete chapterId mangaId s)
     = (if k = mangaId then map_option (\<lambda>n. n - 1) (totalChaptersOf k s) else totalChaptersOf k s)"
proof -
  have "List.find (\<lambda>m. m_id m = k)
          (map (\<lambda>m. if m_id m = mangaId
                 then m\<lparr>m_totalChapters := m_totalChapters m - 1\<rparr>
                 else m) (mangas s))
        = (if k = mangaId
           then map_option (\<lambda>m. m\<lparr>m_totalChapters := m_totalChapters m - 1\<rparr>)
                  (List.find (\<lambda>m. m_id m = k) (mangas s))
           else List.find (\<lambda>m. m_id m = k) (mangas s))"
    by (rule find_map_keep_id) simp
  then show ?thesis
    by (simp add: totalChaptersOf_def manga_findUnique_def afterDelete_def
          option.map_comp comp_def)
qed


subsection \<open>The demonstration store\<close>

lemma demo_manga: "manga_findUnique 10 demoStore = Some demoManga"
  by (simp add: manga_findUnique_def demoStore_def demoManga_def)

lemma demo_chapter: "chapter_findUnique 20 demoStore = Some demoChapter"
  by (simp add: chapter_findUnique_def demoStore_def demoChapter_def)

lemma demo_no_chapter: "chapter_findUnique 9 demoStore = None"
  by (simp add: chapter_findUnique_def demoStore_def demoChapter_def)

lemma demo_number_1: "chapter_findFirst_number 10 1 demoStore = Some demoChapter"
  by (simp add: chapter_findFirst_number_def demoStore_def demoChapter_def)

lemma demo_number_2: "chapter_findFirst_number 10 2 demoStore = None"
  by (simp add: chapter_findFirst_number_def demoStore_def demoChapter_def)

lemma demo_inv: "chapterCountsOk demoStore" "chapterIdsOk demoStore"
  by (simp_all add: chapterCountsOk_def chapterIdsOk_def chapterCountOf_def demoStore_def
        demoManga_def demoChapter_def)

lemma demo_total: "totalChaptersOf 10 demoStore = Some 1"
  by (simp add: totalChaptersOf_def demo_manga) (simp add: demoManga_def)


text \<open>
  Claim C1, as amended. On a store where every manga's \<^verbatim>\<open>totalChapters\<close> equals the
  number of chapter rows that reference it (and chapter ids are primary keys), any
  sequence of \<^verbatim>\<open>createChapter\<close> and \<^verbatim>\<open>deleteChapter\<close> calls, successful or not,
  leaves a store where it still does. A successful \<^verbatim>\<open>createChapter\<close> raises the counter
  of its manga by exactly 1 and leaves every other counter alone; a successful
  \<^verbatim>\<open>deleteChapter\<close> lowers the counter of the chapter's manga by exactly 1 and leaves
  every other counter alone; a failed call of either changes nothing in the store.
\<close>

theorem chapterCount_synchronised:
  "(chapterCountsOk s \<and> chapterIdsOk s \<longrightarrow>
      chapterCountsOk (runChapterOps ext ops s) \<and> chapterIdsOk (runChapterOps ext ops s))
   \<and> (createChapter ext now mangaId cd files userId userRole s1 = (Inr ch, s1') \<longrightarrow>
        totalChaptersOf k s1'
          = (if k = mangaId then map_option (\<lambda>n. n + 1) (totalChaptersOf k s1)
             else totalChaptersOf k s1)
        \<and> totalChaptersOf mangaId s1 \<noteq> None)
   \<and> (deleteChapter chapterId userId2 userRole2 s2 = (Inr b, s2') \<longrightarrow>
        (\<exists>c. chapter_findUnique chapterId s2 = Some c
           \<and> totalChaptersOf (c_mangaId c) s2 \<noteq> None
           \<and> totalChaptersOf k2 s2'
               = (if k2 = c_mangaId c then map_option (\<lambda>n. n - 1) (totalChaptersOf k2 s2)
                  else totalChaptersOf k2 s2)))
   \<and> (createChapter ext now3 mangaId3 cd3 files3 userId3 userRole3 s3 = (Inl e3, s3') \<longrightarrow> s3' = s3)
   \<and> (deleteChapter chapterId4 userId4 userRole4 s4 = (Inl e4, s4') \<longrightarrow> s4' = s4)"
proof (intro conjI impI)
  assume "chapterCountsOk s \<and> chapterIdsOk s"
  then show "chapterCountsOk (runChapterOps ext ops s)" "chapterIdsOk (runChapterOps ext ops s)"
    using inv_runChapterOps by blast+
next
  assume a: "createChapter ext now mangaId cd files userId userRole s1 = (Inr ch, s1')"
  show "totalChaptersOf k s1'
          = (if k = mangaId then map_option (\<lambda>n. n + 1) (totalChaptersOf k s1)
             else totalChaptersOf k s1)"
    using a by (cases rule: createChapter_outcome [of ext now mangaId cd files userId userRole s1])
      (auto simp: totalChaptersOf_afterCreate)
  show "totalChaptersOf mangaId s1 \<noteq> None"
    using a by (cases rule: createChapter_outcome [of ext now mangaId cd files userId userRole s1])
      (auto simp: totalChaptersOf_def)
next
  assume a: "deleteChapter chapterId userId2 userRole2 s2 = (Inr b, s2')"
  show "\<exists>c. chapter_findUnique chapterId s2 = Some c
           \<and> totalChaptersOf (c_mangaId c) s2 \<noteq> None
           \<and> totalChaptersOf k2 s2'
               = (if k2 = c_mangaId c then map_option (\<lambda>n. n - 1) (totalChaptersOf k2 s2)
                  else totalChaptersOf k2 s2)"
  proof (cases rule: deleteChapter_outcome [of chapterId userId2 userRole2 s2])
    case (failed e)
    with a show ?thesis by simp
  next
    case (deleted c m)
    with a have s2': "s2' = afterDelete chapterId (c_mangaId c) s2" by simp
    have "totalChaptersOf (c_mangaId c) s2 \<noteq> None"
      using deleted(2) by (simp add: totalChaptersOf_def)
    with deleted(1) s2' show ?thesis
      by (simp add: totalChaptersOf_afterDelete)
  qed
next
  assume "createChapter ext now3 mangaId3 cd3 files3 userId3 userRole3 s3 = (Inl e3, s3')"
  then show "s3' = s3"
    by (cases rule: createChapter_outcome [of ext now3 mangaId3 cd3 files3 userId3 userRole3 s3])
      simp_all
next
  assume "deleteChapter chapterId4 userId4 userRole4 s4 = (Inl e4, s4')"
  then show "s4' = s4"
    by (cases rule: deleteChapter_outcome [of chapterId4 userId4 userRole4 s4]) simp_all
qed

theorem chapterCount_synchronised_witness:
  "chapterCountsOk demoStore \<and> chapterIdsOk demoStore
   \<and> chapterCountsOk
       (runChapterOps plainCollaborators
          [CreateChapter 6 10 \<lparr>cd_chapterNumber = 2, cd_images = Some [''u'']\<rparr> [] 7 UPLOADER,
           DeleteChapter 20 7 UPLOADER] demoStore)
   \<and> fst (createChapter plainCollaborators 6 10 \<lparr>cd_chapterNumber = 2, cd_images = Some [''u'']\<rparr>
             [] 7 UPLOADER demoStore)
       = Inr (newChapter 6 10 \<lparr>cd_chapterNumber = 2, cd_images = Some [''u'']\<rparr> [''u''] demoStore)
   \<and> totalChaptersOf 10
        (snd (createChapter plainCollaborators 6 10 \<lparr>cd_chapterNumber = 2, cd_images = Some [''u'']\<rparr>
                [] 7 UPLOADER demoStore)) = Some 2
   \<and> fst (deleteChapter 20 7 UPLOADER demoStore) = Inr True
   \<and> totalChaptersOf 10 (snd (deleteChapter 20 7 UPLOADER demoStore)) = Some 0
   \<and> createChapter plainCollaborators 6 10 \<lparr>cd_chapterNumber = 1, cd_images = Some [''u'']\<rparr>
        [] 7 UPLOADER demoStore
       = (Inl (AppError ''Chapter number already exists'' 400), demoStore)
   \<and> deleteChapter 9 7 UPLOADER demoStore = (Inl (AppError ''Chapter not found'' 404), demoStore)"
proof -
  let ?cd = "\<lparr>cd_chapterNumber = 2, cd_images = Some [''u'']\<rparr>"
  let ?dup = "\<lparr>cd_chapterNumber = 1, cd_images = Some [''u'']\<rparr>"
  have owner: "m_uploaderId demoManga = 7 \<or> UPLOADER = ADMIN"
    by (simp add: demoManga_def)
  have imgs: "resolveImages plainCollaborators ?cd [] = Inr [''u'']"
    by (simp add: resolveImages_def)
  have c: "createChapter plainCollaborators 6 10 ?cd [] 7 UPLOADER demoStore
             = (Inr (newChapter 6 10 ?cd [''u''] demoStore),
                snd (createChapter plainCollaborators 6 10 ?cd [] 7 UPLOADER demoStore))"
    using createChapter_ok [OF demo_manga owner _ imgs] demo_number_2 by simp
  then have c1: "fst (createChapter plainCollaborators 6 10 ?cd [] 7 UPLOADER demoStore)
                   = Inr (newChapter 6 10 ?cd [''u''] demoStore)"
    by (metis fst_conv)
  have d: "deleteChapter 20 7 UPLOADER demoStore
             = (Inr True, snd (deleteChapter 20 7 UPLOADER demoStore))"
    using deleteChapter_ok [OF demo_chapter, of demoManga 7 UPLOADER] demo_manga owner
    by (simp add: demoChapter_def)
  then have d1: "fst (deleteChapter 20 7 UPLOADER demoStore) = Inr True"
    by (metis fst_conv)
  have e: "createChapter plainCollaborators 6 10 ?dup [] 7 UPLOADER demoStore
             = (Inl (AppError ''Chapter number already exists'' 400), demoStore)"
    using createChapter_duplicate [OF demo_manga owner, of ?dup demoChapter] demo_number_1 by simp
  have f: "deleteChapter 9 7 UPLOADER demoStore = (Inl (AppError ''Chapter not found'' 404), demoStore)"
    by (rule deleteChapter_no_chapter [OF demo_no_chapter])
  have mid: "c_mangaId demoChapter = 10" by (simp add: demoChapter_def)
  from chapterCount_synchronised
         [where s = demoStore and ext = plainCollaborators
            and ops = "[CreateChapter 6 10 ?cd [] 7 UPLOADER, DeleteChapter 20 7 UPLOADER]"
            and now = 6 and mangaId = 10 and cd = ?cd and files = "[]" and userId = 7
            and userRole = UPLOADER and ?s1.0 = demoStore
            and ch = "newChapter 6 10 ?cd [''u''] demoStore"
            and s1' = "snd (createChapter plainCollaborators 6 10 ?cd [] 7 UPLOADER demoStore)"
            and k = 10
            and chapterId = 20 and ?userId2.0 = 7 and ?userRole2.0 = UPLOADER and ?s2.0 = demoStore
            and b = True and s2' = "snd (deleteChapter 20 7 UPLOADER demoStore)" and ?k2.0 = 10
            and ?now3.0 = 6 and ?mangaId3.0 = 10 and ?cd3.0 = ?dup and ?files3.0 = "[]"
            and ?userId3.0 = 7 and ?userRole3.0 = UPLOADER and ?s3.0 = demoStore
            and ?e3.0 = "AppError ''Chapter number already exists'' 400" and s3' = demoStore
            and ?chapterId4.0 = 9 and ?userId4.0 = 7 and ?userRole4.0 = UPLOADER
            and ?s4.0 = demoStore and ?e4.0 = "AppError ''Chapter not found'' 404"
            and s4' = demoStore]
  show ?thesis
    using demo_inv c d e f by (simp add: demo_total demo_chapter mid c1 d1)
qed


text \<open>
  The claim as stated adds that no other operation changes the counter. It fails on
  \<^verbatim>\<open>updateManga\<close>, which writes the fields of the request body as they arrive: the
  uploader of the demonstration manga sets \<^verbatim>\<open>totalChapters\<close> to 5 while the manga
  still has its one chapter.
\<close>

theorem chapterCount_changed_by_updateManga:
  "\<not> isl (fst (updateManga 10 \<lparr>mu_title = None, mu_slug = None, mu_status = None,
                  mu_approvalStatus = None, mu_uploaderId = None, mu_totalChapters = Some 5,
                  mu_totalViews = None\<rparr> 7 UPLOADER demoStore))
   \<and> chapters (snd (updateManga 10 \<lparr>mu_title = None, mu_slug = None, mu_status = None,
                        mu_approvalStatus = None, mu_uploaderId = None, mu_totalChapters = Some 5,
                        mu_totalViews = None\<rparr> 7 UPLOADER demoStore))
     = chapters demoStore
   \<and> chapterCountOf 10 demoStore = 1
   \<and> totalChaptersOf 10 demoStore = Some 1
   \<and> totalChaptersOf 10 (snd (updateManga 10 \<lparr>mu_title = None, mu_slug = None, mu_status = None,
                        mu_approvalStatus = None, mu_uploaderId = None, mu_totalChapters = Some 5,
                        mu_totalViews = None\<rparr> 7 UPLOADER demoStore))
     = Some 5"
  by (simp add: updateManga_def manga_update_def manga_findUnique_def totalChaptersOf_def
        chapterCountOf_def slugTaken_def applyMangaUpdate_def demoStore_def demoManga_def
        demoChapter_def)

section \<open>Creating a chapter whose number is taken\<close>

text \<open>
  Claim C3, as amended. When a chapter with the same number already exists under the
  manga, \<^verbatim>\<open>createChapter\<close> fails and leaves the whole store, the manga's counter
  included, as it was; for a caller who passes the ownership check (the uploader of
  the manga, or an ADMIN) the failure is
  \<^verbatim>\<open>AppError('Chapter number already exists', 400)\<close>.
\<close>

theorem createChapter_duplicate_number:
  "chapter_findFirst_number mangaId (cd_chapterNumber cd) s = Some c \<Longrightarrow>
     snd (createChapter ext now mangaId cd files userId userRole s) = s
     \<and> isl (fst (createChapter ext now mangaId cd files userId userRole s))
     \<and> (manga_findUnique mangaId s = Some m \<and> (m_uploaderId m = userId \<or> userRole = ADMIN) \<longrightarrow>
          fst (createChapter ext now mangaId cd files userId userRole s)
            = Inl (AppError ''Chapter number already exists'' 400))"
proof (cases "manga_findUnique mangaId s")
  case None
  then show ?thesis by (simp add: createChapter_no_manga)
next
  case (Some m')
  assume dup: "chapter_findFirst_number mangaId (cd_chapterNumber cd) s = Some c"
  show ?thesis
  proof (cases "m_uploaderId m' = userId \<or> userRole = ADMIN")
    case True
    from createChapter_duplicate [OF Some True dup] show ?thesis by simp
  next
    case False
    then have "createChapter ext now mangaId cd files userId userRole s
                 = (Inl (AppError ''Not authorized to add chapters to this manga'' 403), s)"
      using Some by (simp add: createChapter_forbidden)
    with False Some show ?thesis by auto
  qed
qed


theorem createChapter_duplicate_number_witness:
  "chapter_findFirst_number 10 (cd_chapterNumber \<lparr>cd_chapterNumber = 1, cd_images = None\<rparr>) demoStore
     = Some demoChapter
   \<and> manga_findUnique 10 demoStore = Some demoManga
   \<and> m_uploaderId demoManga = 7
   \<and> createChapter plainCollaborators 6 10 \<lparr>cd_chapterNumber = 1, cd_images = None\<rparr> [] 7 UPLOADER
        demoStore
       = (Inl (AppError ''Chapter number already exists'' 400), demoStore)"
proof -
  have h: "chapter_findFirst_number 10 (cd_chapterNumber \<lparr>cd_chapterNumber = 1, cd_images = None\<rparr>)
             demoStore = Some demoChapter"
    by (simp add: demo_number_1)
  have o: "m_uploaderId demoManga = 7" by (simp add: demoManga_def)
  from createChapter_duplicate_number [OF h, of plainCollaborators 6 "[]" 7 UPLOADER demoManga]
  show ?thesis using h o demo_manga by (simp add: prod_eq_iff)
qed


text \<open>
  The claim as stated promises the conflict error to every caller. The ownership check
  comes first in the service: user 8, who did not upload the demonstration manga, is
  refused with status 403 when sending the number of its existing chapter.
\<close>

theorem createChapter_duplicate_by_stranger:
  "chapter_findFirst_number 10 1 demoStore = Some demoChapter
   \<and> fst (createChapter plainCollaborators 6 10 \<lparr>cd_chapterNumber = 1, cd_images = None\<rparr> [] 8
            UPLOADER demoStore)
       = Inl (AppError ''Not authorized to add chapters to this manga'' 403)
   \<and> fst (createChapter plainCollaborators 6 10 \<lparr>cd_chapterNumber = 1, cd_images = None\<rparr> [] 8
            UPLOADER demoStore)
       \<noteq> Inl (AppError ''Chapter number already exists'' 400)"
proof -
  have "m_uploaderId demoManga \<noteq> 8" by (simp add: demoManga_def)
  from createChapter_forbidden [OF demo_manga this]
  show ?thesis by (simp add: demo_number_1)
qed

section \<open>The ownership guard\<close>

lemma forbidden_simps [simp]:
  "forbidden (Inl (AppError msg code)) = (code = 403)"
  "forbidden (Inl (PrismaError pc)) = False"
  "forbidden (Inl (TypeError t)) = False"
  "forbidden (Inr x) = False"
  by (simp_all add: forbidden_def)

lemma find_None_after_filter:
  "List.find (\<lambda>x. f x = k) (filter (\<lambda>x. f x \<noteq> k) xs) = None"
  by (induction xs) auto

lemma updateManga_forbidden:
  "manga_findUnique mangaId s = Some m \<Longrightarrow> m_uploaderId m \<noteq> userId \<Longrightarrow> userRole \<noteq> ADMIN \<Longrightarrow>
     updateManga mangaId mu userId userRole s
       = (Inl (AppError ''Not authorized to update this manga'' 403), s)"
  by (simp add: updateManga_def)

lemma updateManga_slug_taken:
  "manga_findUnique mangaId s = Some m \<Longrightarrow> m_uploaderId m = userId \<or> userRole = ADMIN \<Longrightarrow>
   slugTaken mangaId (mu_slug mu) s \<Longrightarrow>
     updateManga mangaId mu userId userRole s = (Inl (PrismaError ''P2002''), s)"
  by (auto simp: updateManga_def)

lemma updateManga_ok:
  "manga_findUnique mangaId s = Some m \<Longrightarrow> m_uploaderId m = userId \<or> userRole = ADMIN \<Longrightarrow>
   \<not> slugTaken mangaId (mu_slug mu) s \<Longrightarrow>
     updateManga mangaId mu userId userRole s
       = (Inr (applyMangaUpdate mu m),
          s\<lparr>mangas := map (\<lambda>x. if m_id x = mangaId then applyMangaUpdate mu x else x) (mangas s)\<rparr>)"
  by (auto simp: updateManga_def manga_update_def)

lemma deleteManga_forbidden:
  "manga_findUnique mangaId s = Some m \<Longrightarrow> m_uploaderId m \<noteq> userId \<Longrightarrow> userRole \<noteq> ADMIN \<Longrightarrow>
     deleteManga ext mangaId userId userRole s
       = (Inl (AppError ''Not authorized to delete this manga'' 403), s)"
  by (simp add: deleteManga_def)

lemma deleteManga_allowed:
  "manga_findUnique mangaId s = Some m \<Longrightarrow> m_uploaderId m = userId \<or> userRole = ADMIN \<Longrightarrow>
     deleteManga ext mangaId userId userRole s
       = (case onMangaDelete ext mangaId s of
            Inl code \<Rightarrow> (Inl (PrismaError code), s)
          | Inr s1 \<Rightarrow> (Inr True, s1\<lparr>mangas := filter (\<lambda>x. m_id x \<noteq> mangaId) (mangas s1)\<rparr>))"
  by (auto simp: deleteManga_def manga_delete_def split: sum.splits)

lemma updateChapter_forbidden:
  "chapter_findUnique chapterId s = Some c \<Longrightarrow> manga_findUnique (c_mangaId c) s = Some m \<Longrightarrow>
   m_uploaderId m \<noteq> userId \<Longrightarrow> userRole \<noteq> ADMIN \<Longrightarrow>
     updateChapter chapterId cu userId userRole s
       = (Inl (AppError ''Not authorized to update this chapter'' 403), s)"
  by (simp add: updateChapter_def)

lemma updateChapter_ok:
  "chapter_findUnique chapterId s = Some c \<Longrightarrow> manga_findUnique (c_mangaId c) s = Some m \<Longrightarrow>
   m_uploaderId m = userId \<or> userRole = ADMIN \<Longrightarrow>
     updateChapter chapterId cu userId userRole s
       = (Inr (applyChapterUpdate cu c),
          s\<lparr>chapters := map (\<lambda>x. if c_id x = chapterId then applyChapterUpdate cu x else x)
                           (chapters s)\<rparr>)"
  by (auto simp: updateChapter_def chapter_update_def)

lemma applyMangaUpdate_id [simp]: "m_id (applyMangaUpdate mu m) = m_id m"
  by (simp add: applyMangaUpdate_def)

lemma applyChapterUpdate_id [simp]: "c_id (applyChapterUpdate cu c) = c_id c"
  by (simp add: applyChapterUpdate_def)

lemma manga_found_after_update:
  "manga_findUnique mangaId s = Some m \<Longrightarrow>
     manga_findUnique mangaId
       (s\<lparr>mangas := map (\<lambda>x. if m_id x = mangaId then applyMangaUpdate mu x else x) (mangas s)\<rparr>)
       = Some (applyMangaUpdate mu m)"
  using find_map_keep_id [of "applyMangaUpdate mu" mangaId mangaId "mangas s"]
  by (simp add: manga_findUnique_def)

lemma chapter_found_after_update:
  "chapter_findUnique chapterId s = Some c \<Longrightarrow>
     chapter_findUnique chapterId
       (s\<lparr>chapters := map (\<lambda>x. if c_id x = chapterId then applyChapterUpdate cu x else x)
                        (chapters s)\<rparr>)
       = Some (applyChapterUpdate cu c)"
  using find_chapter_map_keep_id [of "applyChapterUpdate cu" chapterId chapterId "chapters s"]
  by (simp add: chapter_findUnique_def)

lemma chapter_gone_after_delete:
  "chapter_findUnique chapterId (afterDelete chapterId k s) = None"
  by (simp add: chapter_findUnique_def afterDelete_def find_None_after_filter)


text \<open>
  Claim C4. For a principal \<open>(userId, userRole)\<close> and an update or deletion of an existing
  manga, or of an existing chapter of an existing manga, the service refuses with status
  403 exactly when the principal is neither an ADMIN nor the uploader of the manga (of the
  chapter's manga); a refused call leaves the store as it was. A principal who passes
  has the write made: the chapter is updated or removed, and the manga is updated unless
  the store rejects the new slug as taken.
\<close>

theorem ownership_guard:
  assumes "manga_findUnique mangaId s = Some m"
    and "chapter_findUnique chapterId s = Some c"
    and "manga_findUnique (c_mangaId c) s = Some cm"
  shows
   "(forbidden (fst (updateManga mangaId mu userId userRole s))
       \<longleftrightarrow> \<not> (userRole = ADMIN \<or> userId = m_uploaderId m))
    \<and> (forbidden (fst (deleteManga ext mangaId userId userRole s))
       \<longleftrightarrow> \<not> (userRole = ADMIN \<or> userId = m_uploaderId m))
    \<and> (forbidden (fst (updateChapter chapterId cu userId userRole s))
       \<longleftrightarrow> \<not> (userRole = ADMIN \<or> userId = m_uploaderId cm))
    \<and> (forbidden (fst (deleteChapter chapterId userId userRole s))
       \<longleftrightarrow> \<not> (userRole = ADMIN \<or> userId = m_uploaderId cm))
    \<and> (\<not> (userRole = ADMIN \<or> userId = m_uploaderId m) \<longrightarrow>
          snd (updateManga mangaId mu userId userRole s) = s
          \<and> snd (deleteManga ext mangaId userId userRole s) = s)
    \<and> (\<not> (userRole = ADMIN \<or> userId = m_uploaderId cm) \<longrightarrow>
          snd (updateChapter chapterId cu userId userRole s) = s
          \<and> snd (deleteChapter chapterId userId userRole s) = s)
    \<and> ((userRole = ADMIN \<or> userId = m_uploaderId m) \<and> \<not> slugTaken mangaId (mu_slug mu) s \<longrightarrow>
          fst (updateManga mangaId mu userId userRole s) = Inr (applyMangaUpdate mu m)
          \<and> manga_findUnique mangaId (snd (updateManga mangaId mu userId userRole s))
              = Some (applyMangaUpdate mu m))
    \<and> ((userRole = ADMIN \<or> userId = m_uploaderId cm) \<longrightarrow>
          fst (updateChapter chapterId cu userId userRole s) = Inr (applyChapterUpdate cu c)
          \<and> chapter_findUnique chapterId (snd (updateChapter chapterId cu userId userRole s))
              = Some (applyChapterUpdate cu c)
          \<and> fst (deleteChapter chapterId userId userRole s) = Inr True
          \<and> chapter_findUnique chapterId (snd (deleteChapter chapterId userId userRole s)) = None)"
proof -
  have manga_part:
    "(forbidden (fst (updateManga mangaId mu userId userRole s))
       \<longleftrightarrow> \<not> (userRole = ADMIN \<or> userId = m_uploaderId m))
     \<and> (forbidden (fst (deleteManga ext mangaId userId userRole s))
       \<longleftrightarrow> \<not> (userRole = ADMIN \<or> userId = m_uploaderId m))
     \<and> (\<not> (userRole = ADMIN \<or> userId = m_uploaderId m) \<longrightarrow>
          snd (updateManga mangaId mu userId userRole s) = s
          \<and> snd (deleteManga ext mangaId userId userRole s) = s)
     \<and> ((userRole = ADMIN \<or> userId = m_uploaderId m) \<and> \<not> slugTaken mangaId (mu_slug mu) s \<longrightarrow>
          fst (updateManga mangaId mu userId userRole s) = Inr (applyMangaUpdate mu m)
          \<and> manga_findUnique mangaId (snd (updateManga mangaId mu userId userRole s))
              = Some (applyMangaUpdate mu m))"
  proof (cases "m_uploaderId m = userId \<or> userRole = ADMIN")
    case False
    then have "m_uploaderId m \<noteq> userId" "userRole \<noteq> ADMIN" by auto
    from updateManga_forbidden [OF assms(1) this] deleteManga_forbidden [OF assms(1) this] False
    show ?thesis by auto
  next
    case True
    have d: "\<not> forbidden (fst (deleteManga ext mangaId userId userRole s))"
      by (simp add: deleteManga_allowed [OF assms(1) True] split: sum.splits)
    have u: "\<not> forbidden (fst (updateManga mangaId mu userId userRole s))"
      by (cases "slugTaken mangaId (mu_slug mu) s")
        (simp_all add: updateManga_slug_taken [OF assms(1) True] updateManga_ok [OF assms(1) True])
    have ok: "\<not> slugTaken mangaId (mu_slug mu) s \<Longrightarrow>
                fst (updateManga mangaId mu userId userRole s) = Inr (applyMangaUpdate mu m)
                \<and> manga_findUnique mangaId (snd (updateManga mangaId mu userId userRole s))
                    = Some (applyMangaUpdate mu m)"
      by (simp add: updateManga_ok [OF assms(1) True] manga_found_after_update [OF assms(1)])
    from True d u ok show ?thesis by auto
  qed
  have chapter_part:
    "(forbidden (fst (updateChapter chapterId cu userId userRole s))
       \<longleftrightarrow> \<not> (userRole = ADMIN \<or> userId = m_uploaderId cm))
     \<and> (forbidden (fst (deleteChapter chapterId userId userRole s))
       \<longleftrightarrow> \<not> (userRole = ADMIN \<or> userId = m_uploaderId cm))
     \<and> (\<not> (userRole = ADMIN \<or> userId = m_uploaderId cm) \<longrightarrow>
          snd (updateChapter chapterId cu userId userRole s) = s
          \<and> snd (deleteChapter chapterId userId userRole s) = s)
     \<and> ((userRole = ADMIN \<or> userId = m_uploaderId cm) \<longrightarrow>
          fst (updateChapter chapterId cu userId userRole s) = Inr (applyChapterUpdate cu c)
          \<and> chapter_findUnique chapterId (snd (updateChapter chapterId cu userId userRole s))
              = Some (applyChapterUpdate cu c)
          \<and> fst (deleteChapter chapterId userId userRole s) = Inr True
          \<and> chapter_findUnique chapterId (snd (deleteChapter chapterId userId userRole s)) = None)"
  proof (cases "m_uploaderId cm = userId \<or> userRole = ADMIN")
    case False
    then have "m_uploaderId cm \<noteq> userId" "userRole \<noteq> ADMIN" by auto
    from updateChapter_forbidden [OF assms(2,3) this] deleteChapter_forbidden [OF assms(2,3) this]
      False
    show ?thesis by auto
  next
    case True
    have u: "fst (updateChapter chapterId cu userId userRole s) = Inr (applyChapterUpdate cu c)
             \<and> chapter_findUnique chapterId (snd (updateChapter chapterId cu userId userRole s))
                 = Some (applyChapterUpdate cu c)"
      by (simp add: updateChapter_ok [OF assms(2,3) True] chapter_found_after_update [OF assms(2)])
    have d: "fst (deleteChapter chapterId userId userRole s) = Inr True
             \<and> chapter_findUnique chapterId (snd (deleteChapter chapterId userId userRole s)) = None"
      using deleteChapter_ok [OF assms(2,3) True] chapter_gone_after_delete [of chapterId "c_mangaId c" s]
      by (simp add: afterDelete_def)
    from True u d show ?thesis by auto
  qed
  show ?thesis
    by (intro conjI) (use manga_part chapter_part in \<open>simp_all\<close>)
qed

theorem ownership_guard_witness:
  "manga_findUnique 10 demoStore = Some demoManga
   \<and> chapter_findUnique 20 demoStore = Some demoChapter
   \<and> manga_findUnique (c_mangaId demoChapter) demoStore = Some demoManga
   \<and> forbidden (fst (updateManga 10 \<lparr>mu_title = Some ''Renamed'', mu_slug = None, mu_status = None,
         mu_approvalStatus = None, mu_uploaderId = None, mu_totalChapters = None,
         mu_totalViews = None\<rparr> 8 UPLOADER demoStore))
   \<and> snd (updateManga 10 \<lparr>mu_title = Some ''Renamed'', mu_slug = None, mu_status = None,
         mu_approvalStatus = None, mu_uploaderId = None, mu_totalChapters = None,
         mu_totalViews = None\<rparr> 8 UPLOADER demoStore) = demoStore
   \<and> forbidden (fst (deleteChapter 20 8 UPLOADER demoStore))
   \<and> snd (deleteChapter 20 8 UPLOADER demoStore) = demoStore
   \<and> \<not> forbidden (fst (deleteManga plainCollaborators 10 7 UPLOADER demoStore))
   \<and> fst (updateManga 10 \<lparr>mu_title = Some ''Renamed'', mu_slug = None, mu_status = None,
         mu_approvalStatus = None, mu_uploaderId = None, mu_totalChapters = None,
         mu_totalViews = None\<rparr> 7 UPLOADER demoStore)
       = Inr (demoManga\<lparr>m_title := ''Renamed''\<rparr>)
   \<and> fst (deleteChapter 20 7 UPLOADER demoStore) = Inr True
   \<and> chapter_findUnique 20 (snd (deleteChapter 20 8 ADMIN demoStore)) = None"
proof -
  let ?mu = "\<lparr>mu_title = Some ''Renamed'', mu_slug = None, mu_status = None,
         mu_approvalStatus = None, mu_uploaderId = None, mu_totalChapters = None,
         mu_totalViews = None\<rparr>"
  have cm: "manga_findUnique (c_mangaId demoChapter) demoStore = Some demoManga"
    using demo_manga by (simp add: demoChapter_def)
  have slug: "\<not> slugTaken 10 (mu_slug ?mu) demoStore"
    by (simp add: slugTaken_def)
  have owner: "m_uploaderId demoManga = 7" by (simp add: demoManga_def)
  have upd: "applyMangaUpdate ?mu demoManga = demoManga\<lparr>m_title := ''Renamed''\<rparr>"
    by (simp add: applyMangaUpdate_def)
  note g = ownership_guard [OF demo_manga demo_chapter cm, where mu = ?mu and ext = plainCollaborators]
  from g [where userId = 8 and userRole = UPLOADER]
       g [where userId = 7 and userRole = UPLOADER]
       g [where userId = 8 and userRole = ADMIN]
  show ?thesis
    using demo_manga demo_chapter cm slug by (simp add: owner upd)
qed

section \<open>Toggling a bookmark\<close>

lemma bookmark_findUnique_irrelevant [simp]:
  "bookmark_findUnique u k (s\<lparr>mangas := ms\<rparr>) = bookmark_findUnique u k s"
  "bookmark_findUnique u k (s\<lparr>nextId := n\<rparr>) = bookmark_findUnique u k s"
  by (simp_all add: bookmark_findUnique_def)

lemma toggleBookmark_no_manga:
  "manga_findUnique mangaId s = None \<Longrightarrow>
     toggleBookmark now userId mangaId s = (Inl (AppError ''Manga not found'' 404), s)"
  by (simp add: toggleBookmark_def)

lemma toggleBookmark_added:
  "manga_findUnique mangaId s = Some m \<Longrightarrow> bookmark_findUnique userId mangaId s = None \<Longrightarrow>
     toggleBookmark now userId mangaId s
       = (Inr \<lparr>tr_action = ''added'', tr_isBookmarked = True\<rparr>,
          s\<lparr>bookmarks := bookmarks s @
                [\<lparr>b_id = nextId s, b_userId = userId, b_mangaId = mangaId, b_createdAt = now\<rparr>],
            nextId := Suc (nextId s)\<rparr>)"
  by (simp add: toggleBookmark_def bookmark_create_def)

lemma toggleBookmark_removed:
  "manga_findUnique mangaId s = Some m \<Longrightarrow> bookmark_findUnique userId mangaId s = Some b \<Longrightarrow>
     toggleBookmark now userId mangaId s
       = (Inr \<lparr>tr_action = ''removed'', tr_isBookmarked = False\<rparr>,
          s\<lparr>bookmarks := filter (\<lambda>b. \<not> (b_userId b = userId \<and> b_mangaId b = mangaId))
                             (bookmarks s)\<rparr>)"
  by (simp add: toggleBookmark_def bookmark_delete_def)

lemma find_filter_neg:
  "List.find P (filter (\<lambda>x. \<not> P x) xs) = None"
  by (induction xs) auto

lemma find_filter_other:
  "(\<And>x. P x \<Longrightarrow> Q x) \<Longrightarrow> List.find P (filter Q xs) = List.find P xs"
  by (induction xs) auto

lemma find_append_single:
  "List.find P (xs @ [y]) = (case List.find P xs of Some x \<Rightarrow> Some x | None \<Rightarrow> if P y then Some y else None)"
  by (induction xs) auto

lemma filter_none_matching:
  "List.find P xs = None \<Longrightarrow> filter (\<lambda>x. \<not> P x) xs = xs"
  by (induction xs) (auto split: if_splits)

lemma bookmark_gone:
  "bookmark_findUnique u k
     (s\<lparr>bookmarks := filter (\<lambda>b. \<not> (b_userId b = u \<and> b_mangaId b = k)) (bookmarks s)\<rparr>) = None"
  using find_filter_neg [of "\<lambda>b. b_userId b = u \<and> b_mangaId b = k" "bookmarks s"]
  by (simp add: bookmark_findUnique_def)

lemma bookmark_other_kept:
  "(u', k') \<noteq> (u, k) \<Longrightarrow>
   bookmark_findUnique u' k'
     (s\<lparr>bookmarks := filter (\<lambda>b. \<not> (b_userId b = u \<and> b_mangaId b = k)) (bookmarks s)\<rparr>)
     = bookmark_findUnique u' k' s"
  using find_filter_other [of "\<lambda>b. b_userId b = u' \<and> b_mangaId b = k'"
          "\<lambda>b. \<not> (b_userId b = u \<and> b_mangaId b = k)" "bookmarks s"]
  by (auto simp: bookmark_findUnique_def)

lemma bookmark_added:
  "bookmark_findUnique u k s = None \<Longrightarrow>
   bookmark_findUnique u' k'
     (s\<lparr>bookmarks := bookmarks s @ [\<lparr>b_id = i, b_userId = u, b_mangaId = k, b_createdAt = t\<rparr>]\<rparr>)
     = (if (u', k') = (u, k)
        then Some \<lparr>b_id = i, b_userId = u, b_mangaId = k, b_createdAt = t\<rparr>
        else bookmark_findUnique u' k' s)"
  by (auto simp: bookmark_findUnique_def find_append_single split: option.splits)

lemma checkBookmark_fst: "fst (checkBookmark u k s) = (bookmark_findUnique u k s \<noteq> None)"
  by (simp add: checkBookmark_def split: option.splits)


text \<open>
  Claim C5. For an existing manga, two \<^verbatim>\<open>toggleBookmark\<close> calls of the same user in
  immediate succession bring the pair back to the bookmark state it had: when no bookmark
  existed the first call inserts one (\<^verbatim>\<open>added\<close>) and the second deletes it
  (\<^verbatim>\<open>removed\<close>), leaving the bookmark table as it was; when one existed the first call
  deletes it and the second inserts one again. Both calls succeed, and the bookmark of
  no other user or manga is touched.
\<close>

theorem toggleBookmark_twice:
  assumes "manga_findUnique mangaId s = Some m"
  shows
    "fst (checkBookmark userId mangaId
            (snd (toggleBookmark now2 userId mangaId (snd (toggleBookmark now1 userId mangaId s)))))
       = fst (checkBookmark userId mangaId s)
     \<and> (\<not> fst (checkBookmark userId mangaId s) \<longrightarrow>
          fst (toggleBookmark now1 userId mangaId s)
            = Inr \<lparr>tr_action = ''added'', tr_isBookmarked = True\<rparr>
          \<and> fst (checkBookmark userId mangaId (snd (toggleBookmark now1 userId mangaId s)))
          \<and> fst (toggleBookmark now2 userId mangaId (snd (toggleBookmark now1 userId mangaId s)))
              = Inr \<lparr>tr_action = ''removed'', tr_isBookmarked = False\<rparr>
          \<and> bookmarks (snd (toggleBookmark now2 userId mangaId
                               (snd (toggleBookmark now1 userId mangaId s))))
              = bookmarks s)
     \<and> (fst (checkBookmark userId mangaId s) \<longrightarrow>
          fst (toggleBookmark now1 userId mangaId s)
            = Inr \<lparr>tr_action = ''removed'', tr_isBookmarked = False\<rparr>
          \<and> \<not> fst (checkBookmark userId mangaId (snd (toggleBookmark now1 userId mangaId s)))
          \<and> fst (toggleBookmark now2 userId mangaId (snd (toggleBookmark now1 userId mangaId s)))
              = Inr \<lparr>tr_action = ''added'', tr_isBookmarked = True\<rparr>)
     \<and> ((u', k') \<noteq> (userId, mangaId) \<longrightarrow>
          bookmark_findUnique u' k'
            (snd (toggleBookmark now2 userId mangaId (snd (toggleBookmark now1 userId mangaId s))))
            = bookmark_findUnique u' k' s)"
proof -
  define s1 where "s1 = snd (toggleBookmark now1 userId mangaId s)"
  define s2 where "s2 = snd (toggleBookmark now2 userId mangaId s1)"
  have goal:
    "fst (checkBookmark userId mangaId s2) = fst (checkBookmark userId mangaId s)
     \<and> (\<not> fst (checkBookmark userId mangaId s) \<longrightarrow>
          fst (toggleBookmark now1 userId mangaId s)
            = Inr \<lparr>tr_action = ''added'', tr_isBookmarked = True\<rparr>
          \<and> fst (checkBookmark userId mangaId s1)
          \<and> fst (toggleBookmark now2 userId mangaId s1)
              = Inr \<lparr>tr_action = ''removed'', tr_isBookmarked = False\<rparr>
          \<and> bookmarks s2 = bookmarks s)
     \<and> (fst (checkBookmark userId mangaId s) \<longrightarrow>
          fst (toggleBookmark now1 userId mangaId s)
            = Inr \<lparr>tr_action = ''removed'', tr_isBookmarked = False\<rparr>
          \<and> \<not> fst (checkBookmark userId mangaId s1)
          \<and> fst (toggleBookmark now2 userId mangaId s1)
              = Inr \<lparr>tr_action = ''added'', tr_isBookmarked = True\<rparr>)
     \<and> ((u', k') \<noteq> (userId, mangaId) \<longrightarrow>
          bookmark_findUnique u' k' s2 = bookmark_findUnique u' k' s)"
  proof (cases "bookmark_findUnique userId mangaId s")
    case None
    let ?row = "\<lparr>b_id = nextId s, b_userId = userId, b_mangaId = mangaId, b_createdAt = now1\<rparr>"
    let ?s1 = "s\<lparr>bookmarks := bookmarks s @ [?row], nextId := Suc (nextId s)\<rparr>"
    have t1: "toggleBookmark now1 userId mangaId s
                = (Inr \<lparr>tr_action = ''added'', tr_isBookmarked = True\<rparr>, ?s1)"
      by (rule toggleBookmark_added [OF assms None])
    then have s1: "s1 = ?s1" by (simp add: s1_def)
    have m1: "manga_findUnique mangaId s1 = Some m"
      using assms by (simp add: s1 manga_findUnique_def)
    have b1: "bookmark_findUnique userId mangaId s1 = Some ?row"
      using bookmark_added [OF None, of userId mangaId] by (simp add: s1)
    have keep: "filter (\<lambda>b. \<not> (b_userId b = userId \<and> b_mangaId b = mangaId)) (bookmarks s)
                  = bookmarks s"
      using None filter_none_matching [of "\<lambda>b. b_userId b = userId \<and> b_mangaId b = mangaId" "bookmarks s"]
      by (simp add: bookmark_findUnique_def)
    have t2: "toggleBookmark now2 userId mangaId s1
                = (Inr \<lparr>tr_action = ''removed'', tr_isBookmarked = False\<rparr>,
                   s1\<lparr>bookmarks := filter (\<lambda>b. \<not> (b_userId b = userId \<and> b_mangaId b = mangaId))
                                       (bookmarks s1)\<rparr>)"
      by (rule toggleBookmark_removed [OF m1 b1])
    have bs2: "bookmarks s2 = bookmarks s"
      using keep by (simp add: s2_def t2) (simp add: s1)
    then have same: "bookmark_findUnique u k s2 = bookmark_findUnique u k s" for u k
      by (simp add: bookmark_findUnique_def)
    from None t1 t2 b1 bs2 same show ?thesis
      by (simp add: checkBookmark_fst)
  next
    case (Some b)
    let ?s1 = "s\<lparr>bookmarks := filter (\<lambda>b. \<not> (b_userId b = userId \<and> b_mangaId b = mangaId))
                                  (bookmarks s)\<rparr>"
    have t1: "toggleBookmark now1 userId mangaId s
                = (Inr \<lparr>tr_action = ''removed'', tr_isBookmarked = False\<rparr>, ?s1)"
      by (rule toggleBookmark_removed [OF assms Some])
    then have s1: "s1 = ?s1" by (simp add: s1_def)
    have m1: "manga_findUnique mangaId s1 = Some m"
      using assms by (simp add: s1 manga_findUnique_def)
    have b1: "bookmark_findUnique userId mangaId s1 = None"
      unfolding s1 by (rule bookmark_gone)
    let ?row = "\<lparr>b_id = nextId s1, b_userId = userId, b_mangaId = mangaId, b_createdAt = now2\<rparr>"
    have t2: "toggleBookmark now2 userId mangaId s1
                = (Inr \<lparr>tr_action = ''added'', tr_isBookmarked = True\<rparr>,
                   s1\<lparr>bookmarks := bookmarks s1 @ [?row], nextId := Suc (nextId s1)\<rparr>)"
      by (rule toggleBookmark_added [OF m1 b1])
    have after: "bookmark_findUnique u' k' s2
                   = (if (u', k') = (userId, mangaId) then Some ?row
                      else bookmark_findUnique u' k' s1)" for u' k'
      using bookmark_added [OF b1, of u' k'] by (simp add: s2_def t2)
    have other: "(u', k') \<noteq> (userId, mangaId) \<Longrightarrow>
                   bookmark_findUnique u' k' s1 = bookmark_findUnique u' k' s"
      unfolding s1 by (rule bookmark_other_kept)
    have b2: "bookmark_findUnique userId mangaId s2 = Some ?row"
      by (simp add: after)
    have o2: "(u', k') \<noteq> (userId, mangaId) \<Longrightarrow>
                bookmark_findUnique u' k' s2 = bookmark_findUnique u' k' s"
    proof -
      assume ne: "(u', k') \<noteq> (userId, mangaId)"
      then have "bookmark_findUnique u' k' s2 = bookmark_findUnique u' k' s1"
        by (simp only: after if_False)
      with other [OF ne] show ?thesis by simp
    qed
    from Some t1 t2 b1 b2 o2 show ?thesis
      by (simp add: checkBookmark_fst)
  qed
  then show ?thesis unfolding s2_def s1_def .
qed

theorem toggleBookmark_twice_witness:
  "manga_findUnique 10 demoStore = Some demoManga
   \<and> \<not> fst (checkBookmark 7 10 demoStore)
   \<and> fst (toggleBookmark 6 7 10 demoStore) = Inr \<lparr>tr_action = ''added'', tr_isBookmarked = True\<rparr>
   \<and> fst (toggleBookmark 8 7 10 (snd (toggleBookmark 6 7 10 demoStore)))
       = Inr \<lparr>tr_action = ''removed'', tr_isBookmarked = False\<rparr>
   \<and> bookmarks (snd (toggleBookmark 8 7 10 (snd (toggleBookmark 6 7 10 demoStore)))) = []
   \<and> manga_findUnique 10 demoBookmarked = Some demoManga
   \<and> fst (checkBookmark 7 10 demoBookmarked)
   \<and> fst (toggleBookmark 6 7 10 demoBookmarked)
       = Inr \<lparr>tr_action = ''removed'', tr_isBookmarked = False\<rparr>
   \<and> fst (toggleBookmark 8 7 10 (snd (toggleBookmark 6 7 10 demoBookmarked)))
       = Inr \<lparr>tr_action = ''added'', tr_isBookmarked = True\<rparr>
   \<and> fst (checkBookmark 7 10 (snd (toggleBookmark 8 7 10 (snd (toggleBookmark 6 7 10 demoBookmarked)))))
   \<and> bookmark_findUnique 7 11 (snd (toggleBookmark 8 7 10 (snd (toggleBookmark 6 7 10 demoBookmarked))))
       = bookmark_findUnique 7 11 demoBookmarked"
proof -
  have m2: "manga_findUnique 10 demoBookmarked = Some demoManga"
    using demo_manga by (simp add: demoBookmarked_def)
  have c1: "\<not> fst (checkBookmark 7 10 demoStore)"
    by (simp add: checkBookmark_def bookmark_findUnique_def demoStore_def)
  have c2: "fst (checkBookmark 7 10 demoBookmarked)"
    by (simp add: checkBookmark_def bookmark_findUnique_def demoBookmarked_def)
  have e: "bookmarks demoStore = []" by (simp add: demoStore_def)
  from toggleBookmark_twice [OF demo_manga, of 7 8 6 7 11]
       toggleBookmark_twice [OF m2, of 7 8 6 7 11]
  show ?thesis
    using demo_manga m2 c1 c2 e by simp
qed

section \<open>Saving progress\<close>

lemma upsert_keeps [simp]:
  "chapters (snd (readingHistory_upsert u c upd crt s)) = chapters s"
  "mangas (snd (readingHistory_upsert u c upd crt s)) = mangas s"
  "chapterViews (snd (readingHistory_upsert u c upd crt s)) = chapterViews s"
  "bookmarks (snd (readingHistory_upsert u c upd crt s)) = bookmarks s"
  by (simp_all add: readingHistory_upsert_def split: option.splits)

lemma upsert_finds [simp]:
  "chapter_findUnique k (snd (readingHistory_upsert u c upd crt s)) = chapter_findUnique k s"
  "manga_findUnique k (snd (readingHistory_upsert u c upd crt s)) = manga_findUnique k s"
  by (simp_all add: chapter_findUnique_def manga_findUnique_def)

lemma readingHistory_findUnique_irrelevant [simp]:
  "readingHistory_findUnique u c (s\<lparr>mangas := ms\<rparr>) = readingHistory_findUnique u c s"
  "readingHistory_findUnique u c (s\<lparr>chapters := cs\<rparr>) = readingHistory_findUnique u c s"
  "readingHistory_findUnique u c (s\<lparr>nextId := n\<rparr>) = readingHistory_findUnique u c s"
  by (simp_all add: readingHistory_findUnique_def)

lemma find_map_matching:
  "(\<And>x. P (f x) = P x) \<Longrightarrow>
     List.find P (map (\<lambda>x. if P x then f x else x) xs) = map_option f (List.find P xs)"
  by (induction xs) auto

lemma upsert_stored:
  assumes "\<And>h. h_userId (upd h) = h_userId h \<and> h_chapterId (upd h) = h_chapterId h"
    and "\<And>i. h_userId (crt i) = u \<and> h_chapterId (crt i) = c"
  shows "readingHistory_findUnique u c (snd (readingHistory_upsert u c upd crt s))
           = Some (fst (readingHistory_upsert u c upd crt s))"
proof (cases "readingHistory_findUnique u c s")
  case None
  then show ?thesis
    using assms(2)
    by (simp add: readingHistory_upsert_def)
       (simp add: readingHistory_findUnique_def find_append_single)
next
  case (Some h)
  have "List.find (\<lambda>h. h_userId h = u \<and> h_chapterId h = c)
          (map (\<lambda>r. if h_userId r = u \<and> h_chapterId r = c then upd r else r) (readingHistories s))
        = map_option upd (List.find (\<lambda>h. h_userId h = u \<and> h_chapterId h = c) (readingHistories s))"
    by (rule find_map_matching) (simp add: assms(1))
  with Some show ?thesis
    by (simp add: readingHistory_upsert_def) (simp add: readingHistory_findUnique_def)
qed

lemma upsert_row:
  "fst (readingHistory_upsert u c upd crt s)
     = (case readingHistory_findUnique u c s of Some h \<Rightarrow> upd h | None \<Rightarrow> crt (nextId s))"
  by (simp add: readingHistory_upsert_def split: option.splits)

lemma saveProgress_ok:
  assumes "chapter_findUnique chapterId s = Some c"
    and "manga_findUnique (c_mangaId c) s = Some m"
  shows "saveProgress now userId chapterId pd s
           = (Inr (fst (savedHistory now userId chapterId (c_mangaId c) pd s)),
              (snd (savedHistory now userId chapterId (c_mangaId c) pd s))
                \<lparr>chapters := map (\<lambda>x. if c_id x = chapterId
                                       then x\<lparr>c_totalViews := c_totalViews x + 1\<rparr> else x)
                                 (chapters s),
                  mangas := map (\<lambda>x. if m_id x = c_mangaId c
                                     then x\<lparr>m_totalViews := m_totalViews x + 1\<rparr> else x)
                               (mangas s)\<rparr>)"
proof -
  obtain h s1 where u: "savedHistory now userId chapterId (c_mangaId c) pd s = (h, s1)"
    by (cases "savedHistory now userId chapterId (c_mangaId c) pd s")
  then have s1: "s1 = snd (savedHistory now userId chapterId (c_mangaId c) pd s)" by simp
  have c1: "chapter_findUnique chapterId s1 = Some c"
    using assms(1) by (simp add: s1 savedHistory_def)
  have m1: "manga_findUnique (c_mangaId c) s1 = Some m"
    using assms(2) by (simp add: s1 savedHistory_def)
  have cs: "chapters s1 = chapters s" and ms: "mangas s1 = mangas s"
    by (simp_all add: s1 savedHistory_def)
  show ?thesis
    using assms(1) u c1 m1 cs ms
    by (simp add: saveProgress_def savedHistory_def chapter_update_def manga_update_def)
qed

lemma saveProgress_no_manga:
  assumes "chapter_findUnique chapterId s = Some c"
    and "manga_findUnique (c_mangaId c) s = None"
  shows "fst (saveProgress now userId chapterId pd s) = Inl (PrismaError ''P2025'')"
proof -
  obtain h s1 where u: "savedHistory now userId chapterId (c_mangaId c) pd s = (h, s1)"
    by (cases "savedHistory now userId chapterId (c_mangaId c) pd s")
  then have s1: "s1 = snd (savedHistory now userId chapterId (c_mangaId c) pd s)" by simp
  have c1: "chapter_findUnique chapterId s1 = Some c"
    using assms(1) by (simp add: s1 savedHistory_def)
  have m1: "manga_findUnique (c_mangaId c) s1 = None"
    using assms(2) by (simp add: s1 savedHistory_def)
  show ?thesis
    using assms(1) u c1 m1
    by (simp add: saveProgress_def savedHistory_def chapter_update_def manga_update_def)
qed

lemma saveProgress_success:
  assumes "saveProgress now userId chapterId pd s = (Inr h, s')"
  obtains c m where "chapter_findUnique chapterId s = Some c"
    and "manga_findUnique (c_mangaId c) s = Some m"
proof (cases "chapter_findUnique chapterId s")
  case None
  with assms show ?thesis by (simp add: saveProgress_def)
next
  case (Some c)
  show ?thesis
  proof (cases "manga_findUnique (c_mangaId c) s")
    case None
    from saveProgress_no_manga [OF Some None, of now userId pd] assms show ?thesis by simp
  next
    case (Some m)
    with \<open>chapter_findUnique chapterId s = Some c\<close> that show ?thesis by blast
  qed
qed

lemma saveProgress_chapterViews:
  "chapterViews (snd (saveProgress now userId chapterId pd s)) = chapterViews s"
proof (cases "chapter_findUnique chapterId s")
  case None
  then show ?thesis by (simp add: saveProgress_def)
next
  case (Some c)
  obtain h s1 where u: "savedHistory now userId chapterId (c_mangaId c) pd s = (h, s1)"
    by (cases "savedHistory now userId chapterId (c_mangaId c) pd s")
  then have s1: "s1 = snd (savedHistory now userId chapterId (c_mangaId c) pd s)" by simp
  have v: "chapterViews s1 = chapterViews s" by (simp add: s1 savedHistory_def)
  show ?thesis
    using Some u v
    by (auto simp: saveProgress_def savedHistory_def chapter_update_def manga_update_def
             split: option.splits)
qed


lemma demo_chapter_manga: "manga_findUnique (c_mangaId demoChapter) demoStore = Some demoManga"
  using demo_manga by (simp add: demoChapter_def)

lemma demo_save:
  "saveProgress 6 7 20 pd demoStore
     = (Inr (projr (fst (saveProgress 6 7 20 pd demoStore))), snd (saveProgress 6 7 20 pd demoStore))"
  using saveProgress_ok [OF demo_chapter demo_chapter_manga, of 6 7 pd] by simp


text \<open>
  Every successful \<^verbatim>\<open>saveProgress\<close> call raises the \<^verbatim>\<open>totalViews\<close> of the chapter
  by exactly 1 and the \<^verbatim>\<open>totalViews\<close> of the chapter's manga by exactly 1, and changes
  nothing else in those two rows.
\<close>

lemma saveProgress_counts_view:
  assumes "saveProgress now userId chapterId pd s = (Inr h, s')"
  shows "\<exists>c m. chapter_findUnique chapterId s = Some c
           \<and> manga_findUnique (c_mangaId c) s = Some m
           \<and> chapter_findUnique chapterId s' = Some (c\<lparr>c_totalViews := c_totalViews c + 1\<rparr>)
           \<and> manga_findUnique (c_mangaId c) s' = Some (m\<lparr>m_totalViews := m_totalViews m + 1\<rparr>)"
proof -
  from assms obtain c m where c: "chapter_findUnique chapterId s = Some c"
    and m: "manga_findUnique (c_mangaId c) s = Some m"
    by (rule saveProgress_success)
  from saveProgress_ok [OF c m, of now userId pd] assms
  have s': "s' = (snd (savedHistory now userId chapterId (c_mangaId c) pd s))
                \<lparr>chapters := map (\<lambda>x. if c_id x = chapterId
                                       then x\<lparr>c_totalViews := c_totalViews x + 1\<rparr> else x)
                                 (chapters s),
                  mangas := map (\<lambda>x. if m_id x = c_mangaId c
                                     then x\<lparr>m_totalViews := m_totalViews x + 1\<rparr> else x)
                               (mangas s)\<rparr>"
    by simp
  have "chapter_findUnique chapterId s' = Some (c\<lparr>c_totalViews := c_totalViews c + 1\<rparr>)"
    using c find_chapter_map_keep_id
            [of "\<lambda>x. x\<lparr>c_totalViews := c_totalViews x + 1\<rparr>" chapterId chapterId "chapters s"]
    by (simp add: s' chapter_findUnique_def)
  moreover have "manga_findUnique (c_mangaId c) s' = Some (m\<lparr>m_totalViews := m_totalViews m + 1\<rparr>)"
    using m find_map_keep_id
            [of "\<lambda>x. x\<lparr>m_totalViews := m_totalViews x + 1\<rparr>" "c_mangaId c" "c_mangaId c" "mangas s"]
    by (simp add: s' manga_findUnique_def)
  ultimately show ?thesis using c m by blast
qed

lemma saveProgress_counts_view_demo:
  "saveProgress 6 7 20 \<lparr>pd_currentPage = 15, pd_totalPages = 25, pd_isCompleted = None\<rparr> demoStore
     = (Inr (projr (fst (saveProgress 6 7 20
               \<lparr>pd_currentPage = 15, pd_totalPages = 25, pd_isCompleted = None\<rparr> demoStore))),
        snd (saveProgress 6 7 20
               \<lparr>pd_currentPage = 15, pd_totalPages = 25, pd_isCompleted = None\<rparr> demoStore))
   \<and> chapter_findUnique 20
        (snd (saveProgress 6 7 20
               \<lparr>pd_currentPage = 15, pd_totalPages = 25, pd_isCompleted = None\<rparr> demoStore))
       = Some (demoChapter\<lparr>c_totalViews := c_totalViews demoChapter + 1\<rparr>)
   \<and> manga_findUnique 10
        (snd (saveProgress 6 7 20
               \<lparr>pd_currentPage = 15, pd_totalPages = 25, pd_isCompleted = None\<rparr> demoStore))
       = Some (demoManga\<lparr>m_totalViews := m_totalViews demoManga + 1\<rparr>)"
proof -
  let ?pd = "\<lparr>pd_currentPage = 15, pd_totalPages = 25, pd_isCompleted = None\<rparr>"
  have mid: "c_mangaId demoChapter = 10" by (simp add: demoChapter_def)
  from saveProgress_counts_view [OF demo_save [of ?pd]]
  show ?thesis
    using demo_save [of ?pd] by (simp add: demo_chapter demo_manga mid)
qed


text \<open>
  Claim C8. A successful \<^verbatim>\<open>saveProgress\<close> call should run the whole view-increment
  path: both \<^verbatim>\<open>totalViews\<close> counters raised by 1 and, the user being known, a
  \<^verbatim>\<open>chapterView\<close> row inserted. The counters are raised (above), but \<^verbatim>\<open>saveProgress\<close>
  never writes the \<^verbatim>\<open>chapterView\<close> table: after a successful save by user 7 on the
  demonstration store the table is still empty, whereas \<^verbatim>\<open>incrementChapterViews\<close> for
  the same user and chapter inserts the row.
\<close>

theorem saveProgress_inserts_no_chapterView:
  "\<not> isl (fst (saveProgress 6 7 20 \<lparr>pd_currentPage = 15, pd_totalPages = 25, pd_isCompleted = None\<rparr>
               demoStore))
   \<and> chapterViews (snd (saveProgress 6 7 20
         \<lparr>pd_currentPage = 15, pd_totalPages = 25, pd_isCompleted = None\<rparr> demoStore)) = []
   \<and> chapterViews (snd (incrementChapterViews 20 10 (Some 7) demoStore))
       = [\<lparr>v_chapterId = 20, v_userId = 7\<rparr>]"
proof -
  let ?pd = "\<lparr>pd_currentPage = 15, pd_totalPages = 25, pd_isCompleted = None\<rparr>"
  have "\<not> isl (fst (saveProgress 6 7 20 ?pd demoStore))"
    using saveProgress_ok [OF demo_chapter demo_chapter_manga, of 6 7 ?pd] by simp
  moreover have "chapterViews (snd (saveProgress 6 7 20 ?pd demoStore)) = []"
    by (simp add: saveProgress_chapterViews) (simp add: demoStore_def)
  moreover have "chapterViews (snd (incrementChapterViews 20 10 (Some 7) demoStore))
                   = [\<lparr>v_chapterId = 20, v_userId = 7\<rparr>]"
    by (simp add: incrementChapterViews_def chapter_update_def manga_update_def demo_chapter
          demo_manga)
       (simp add: demoStore_def)
  ultimately show ?thesis by simp
qed


section \<open>The stored percentage\<close>

lemma roundTiesToEven_error: "\<bar>of_int (roundTiesToEven y) - y\<bar> \<le> 1 / 2"
proof -
  define n where "n = \<lfloor>y\<rfloor>"
  define r where "r = y - of_int n"
  have r: "0 \<le> r" "r < 1"
    unfolding r_def n_def by linarith+
  have y: "y = of_int n + r"
    by (simp add: r_def)
  have rte: "roundTiesToEven y
               = (if r < 1 / 2 then n else if 1 / 2 < r then n + 1
                  else if even n then n else n + 1)"
    by (simp add: roundTiesToEven_def Let_def n_def r_def)
  have "\<bar>of_int (if r < 1 / 2 then n else if 1 / 2 < r then n + 1
                    else if even n then n else n + 1) - (of_int n + r)\<bar> \<le> 1 / 2"
    using r by (auto simp: abs_if)
  then show ?thesis
    by (simp only: rte y [symmetric])
qed

lemma pow2_pos: "0 < (2::rat) powi e"
  by (simp add: zero_less_power_int)

lemma pow2_diff: "(2::rat) powi (a - b) = 2 powi a / 2 powi b"
  by (simp add: power_int_diff)

lemma ilog2_bounds:
  assumes "0 < x"
  shows "2 powi ilog2 x \<le> x" and "x < 2 powi (ilog2 x + 1)"
proof -
  obtain a b where q: "quotient_of x = (a, b)" by (cases "quotient_of x")
  then have b: "0 < b" and x: "x = of_int a / of_int b"
    by (simp_all add: quotient_of_denom_pos quotient_of_div)
  from assms x b have a: "0 < a"
    by (simp add: zero_less_divide_iff)
  let ?d = "bitlen a - bitlen b"
  have la: "1 \<le> bitlen a" and lb: "1 \<le> bitlen b"
    using a b by (simp_all add: bitlen_alt_def)
  have "2 ^ nat (bitlen a - 1) \<le> a" "a < 2 ^ nat (bitlen a)"
       "2 ^ nat (bitlen b - 1) \<le> b" "b < 2 ^ nat (bitlen b)"
    using bitlen_bounds [OF a] bitlen_bounds [OF b] by simp_all
  then have "(2::rat) ^ nat (bitlen a - 1) \<le> of_int a" "of_int a < (2::rat) ^ nat (bitlen a)"
       "(2::rat) ^ nat (bitlen b - 1) \<le> of_int b" "of_int b < (2::rat) ^ nat (bitlen b)"
    by (metis of_int_le_iff of_int_less_iff of_int_numeral of_int_power)+
  then have abnd: "(2::rat) powi (bitlen a - 1) \<le> of_int a" "of_int a < (2::rat) powi bitlen a"
       "(2::rat) powi (bitlen b - 1) \<le> of_int b" "of_int b < (2::rat) powi bitlen b"
    using la lb by (simp_all add: power_int_nonneg_exp)
  have lo: "2 powi (?d - 1) \<le> x"
  proof -
    have "(2::rat) powi (?d - 1) = 2 powi (bitlen a - 1) / 2 powi bitlen b"
      using pow2_diff [of "bitlen a - 1" "bitlen b"] by (simp add: algebra_simps)
    also have "\<dots> \<le> of_int a / 2 powi bitlen b"
      using abnd(1) pow2_pos [of "bitlen b"] by (simp add: divide_right_mono)
    also have "\<dots> \<le> of_int a / of_int b"
      using abnd(4) a b by (simp add: frac_le)
    finally show ?thesis by (simp add: x)
  qed
  have hi: "x < 2 powi (?d + 1)"
  proof -
    have "x = of_int a / of_int b" by (rule x)
    also have "\<dots> < 2 powi bitlen a / of_int b"
      using abnd(2) b by (simp add: divide_strict_right_mono)
    also have "\<dots> \<le> 2 powi bitlen a / 2 powi (bitlen b - 1)"
      using abnd(3) pow2_pos [of "bitlen b - 1"] pow2_pos [of "bitlen a"]
      by (simp add: frac_le)
    also have "\<dots> = 2 powi (?d + 1)"
      using pow2_diff [of "bitlen a" "bitlen b - 1"] by (simp add: algebra_simps)
    finally show ?thesis .
  qed
  show "2 powi ilog2 x \<le> x"
    using lo q by (simp add: ilog2_def Let_def)
  show "x < 2 powi (ilog2 x + 1)"
    using hi q by (auto simp: ilog2_def Let_def not_le)
qed

lemma double_error:
  assumes "0 < x"
  shows "\<bar>double x - x\<bar> \<le> x / 2 ^ 53"
proof -
  let ?u = "(2::rat) powi (ilog2 x - 52)"
  have u: "0 < ?u" by (rule pow2_pos)
  have "double x = of_int (roundTiesToEven (x / ?u)) * ?u"
    using assms by (simp add: double_def Let_def)
  moreover have "of_int (roundTiesToEven (x / ?u)) * ?u - x
                   = (of_int (roundTiesToEven (x / ?u)) - x / ?u) * ?u"
    using u by (simp add: field_simps)
  ultimately have "\<bar>double x - x\<bar> = \<bar>of_int (roundTiesToEven (x / ?u)) - x / ?u\<bar> * ?u"
    using u by (simp only: abs_mult abs_of_pos)
  also have "\<dots> \<le> 1 / 2 * ?u"
    using roundTiesToEven_error [of "x / ?u"] u by (simp add: mult_right_mono)
  also have "\<dots> = 2 powi ilog2 x / 2 ^ 53"
    using pow2_diff [of "ilog2 x" 52] by simp
  also have "\<dots> \<le> x / 2 ^ 53"
    using ilog2_bounds(1) [OF assms] by (simp add: divide_right_mono)
  finally show ?thesis .
qed

lemma double_zero [simp]: "double 0 = 0"
  by (simp add: double_def)

lemma percent_error:
  assumes "0 \<le> c" "c < 2 ^ 31" "0 < t"
  shows "\<bar>double (double (of_int c / of_int t) * 100) - 100 * of_int c / of_int t\<bar>
           < 1 / (2 * of_int t)"
proof (cases "c = 0")
  case True
  with assms show ?thesis by simp
next
  case False
  with assms have c: "0 < c" by simp
  define y :: rat where "y = of_int c / of_int t"
  define q where "q = double y"
  define p where "p = double (q * 100)"
  define u :: rat where "u = 1 / 2 ^ 53"
  have t: "(0::rat) < of_int t" using assms by simp
  have y: "0 < y" using c t by (simp add: y_def)
  have qe: "\<bar>q - y\<bar> \<le> y * u"
    using double_error [OF y] by (simp add: q_def u_def)
  have u: "0 < u" "u < 1" by (simp_all add: u_def)
  have "y * u < y * 1" using y u by (simp only: mult_strict_left_mono)
  with qe have q: "0 < q" by (simp add: abs_le_iff)
  from qe have q_le: "q \<le> y * (1 + u)" by (simp add: abs_le_iff algebra_simps)
  have pe: "\<bar>p - q * 100\<bar> \<le> q * 100 * u"
    using double_error [of "q * 100"] q by (simp add: p_def u_def)
  have "q * 100 * u \<le> y * (1 + u) * 100 * u"
    using q_le u by (simp add: mult_right_mono)
  with pe have pe': "\<bar>p - q * 100\<bar> \<le> y * (1 + u) * 100 * u" by linarith
  have "\<bar>p - 100 * y\<bar> \<le> \<bar>p - q * 100\<bar> + 100 * \<bar>q - y\<bar>" by (simp add: abs_if split: if_splits)
  also have "\<dots> \<le> y * (1 + u) * 100 * u + 100 * (y * u)"
    using pe' qe by (intro add_mono mult_left_mono) simp_all
  also have "\<dots> = y * (100 * u * (2 + u))" by (simp add: algebra_simps)
  also have "\<dots> \<le> y * (300 * u)"
    using y u by (intro mult_left_mono) (simp_all add: algebra_simps)
  finally have bound: "\<bar>p - 100 * y\<bar> \<le> y * (300 * u)" .
  have "600 * of_int c < (2::rat) ^ 53"
  proof -
    have "600 * c < 600 * 2 ^ 31" using assms by simp
    also have "\<dots> < (2::int) ^ 53" by simp
    finally have "600 * c < (2::int) ^ 53" .
    then have "of_int (600 * c) < (of_int (2 ^ 53) :: rat)" by (simp only: of_int_less_iff)
    then show ?thesis by simp
  qed
  then have "of_int c * (300 * u) < 1 / 2"
    by (simp add: u_def field_simps)
  then have "of_int c * (300 * u) / of_int t < (1 / 2) / of_int t"
    using t by (simp only: divide_strict_right_mono)
  then have "y * (300 * u) < 1 / (2 * of_int t)"
    by (simp add: y_def field_simps)
  with bound have "\<bar>p - 100 * y\<bar> < 1 / (2 * of_int t)" by linarith
  then show ?thesis
    by (simp add: p_def q_def y_def)
qed

lemma round_near:
  fixes p :: rat
  assumes "0 < t" and "\<bar>p - 100 * of_int c / of_int t\<bar> < 1 / (2 * of_int t)"
  shows "frac (100 * of_int c / of_int t :: rat) \<noteq> 1 / 2 \<Longrightarrow>
           \<lfloor>p + 1 / 2\<rfloor> = round (100 * of_int c / of_int t :: rat)"
    and "frac (100 * of_int c / of_int t :: rat) = 1 / 2 \<Longrightarrow>
           \<lfloor>p + 1 / 2\<rfloor> = \<lfloor>100 * of_int c / of_int t :: rat\<rfloor>
           \<or> \<lfloor>p + 1 / 2\<rfloor> = \<lfloor>100 * of_int c / of_int t :: rat\<rfloor> + 1"
proof -
  define X :: rat where "X = 100 * of_int c / of_int t"
  have t: "(0::rat) < of_int t" using assms by simp
  have near: "\<bar>p - X\<bar> < 1 / (2 * of_int t)" using assms(2) by (simp add: X_def)
  have small: "1 / (2 * of_int t) \<le> (1 / 2 :: rat)"
  proof -
    have "1 \<le> t" using assms(1) by simp
    then have "(of_int 1 :: rat) \<le> of_int t" by (simp only: of_int_le_iff)
    then show ?thesis by (simp add: field_simps)
  qed
  {
    assume nt: "frac X \<noteq> 1 / 2"
    define k where "k = \<lfloor>X + 1 / 2\<rfloor>"
    define N where "N = 200 * c + t - 2 * t * k"
    have k: "of_int k \<le> X + 1 / 2" "X + 1 / 2 < of_int k + 1"
      unfolding k_def by linarith+
    have N: "of_int N = 2 * of_int t * (X + 1 / 2 - of_int k)"
      using t by (simp add: N_def X_def field_simps)
    have "0 \<le> (of_int N :: rat)"
      unfolding N using k t by (intro mult_nonneg_nonneg) simp_all
    then have N0: "0 \<le> N" by simp
    have "N \<noteq> 0"
    proof
      assume "N = 0"
      with N t have "X + 1 / 2 - of_int k = 0" by simp
      then have Xeq: "X = of_int (k - 1) + 1 / 2" by simp
      have "\<lfloor>X\<rfloor> = k - 1"
      proof (rule floor_unique)
        show "of_int (k - 1) \<le> X" by (subst Xeq) simp
        show "X < of_int (k - 1) + 1" by (subst Xeq) simp
      qed
      then have "frac X = X - of_int (k - 1)" by (simp only: frac_def)
      then have "frac X = 1 / 2" by (subst (asm) (2) Xeq) simp
      with nt show False by simp
    qed
    with N0 have "1 \<le> N" by simp
    then have "(1::rat) \<le> of_int N" by simp
    then have lo: "1 / (2 * of_int t) \<le> X + 1 / 2 - of_int k"
      unfolding N using t by (simp add: field_simps)
    have "(of_int N :: rat) < 2 * of_int t"
      unfolding N using k t by simp
    then have "N < 2 * t" by (metis of_int_less_iff of_int_mult of_int_numeral)
    then have "N + 1 \<le> 2 * t" by simp
    then have "(of_int (N + 1) :: rat) \<le> of_int (2 * t)" by (simp only: of_int_le_iff)
    then have "(of_int N :: rat) + 1 \<le> 2 * of_int t" by simp
    then have hi: "X + 1 / 2 - of_int k \<le> 1 - 1 / (2 * of_int t)"
      unfolding N using t by (simp add: field_simps)
    from near lo hi have "of_int k < p + 1 / 2" "p + 1 / 2 < of_int k + 1"
      by (simp_all add: abs_less_iff)
    then have "\<lfloor>p + 1 / 2\<rfloor> = k" by (simp add: floor_unique)
    then have "\<lfloor>p + 1 / 2\<rfloor> = round X" by (simp add: k_def round_def)
  }
  then show "frac (100 * of_int c / of_int t :: rat) \<noteq> 1 / 2 \<Longrightarrow>
           \<lfloor>p + 1 / 2\<rfloor> = round (100 * of_int c / of_int t :: rat)"
    by (simp add: X_def)
  {
    assume tie: "frac X = 1 / 2"
    define f where "f = \<lfloor>X\<rfloor>"
    from tie have X: "X = of_int f + 1 / 2" by (simp add: frac_def f_def)
    from near small have "\<bar>p - X\<bar> < 1 / 2" by linarith
    then have "p - X < 1 / 2" "X - p < 1 / 2" by (simp_all only: abs_less_iff minus_diff_eq)
    with X have "of_int f < p + 1 / 2" "p + 1 / 2 < of_int (f + 2)"
      by simp_all
    then have "f \<le> \<lfloor>p + 1 / 2\<rfloor>" "\<lfloor>p + 1 / 2\<rfloor> < f + 2"
      by (simp_all only: le_floor_iff floor_less_iff less_imp_le)
    then have "\<lfloor>p + 1 / 2\<rfloor> = f \<or> \<lfloor>p + 1 / 2\<rfloor> = f + 1" by linarith
    then have "\<lfloor>p + 1 / 2\<rfloor> = \<lfloor>X\<rfloor> \<or> \<lfloor>p + 1 / 2\<rfloor> = \<lfloor>X\<rfloor> + 1"
      by (simp only: f_def)
  }
  then show "frac (100 * of_int c / of_int t :: rat) = 1 / 2 \<Longrightarrow>
           \<lfloor>p + 1 / 2\<rfloor> = \<lfloor>100 * of_int c / of_int t :: rat\<rfloor>
           \<or> \<lfloor>p + 1 / 2\<rfloor> = \<lfloor>100 * of_int c / of_int t :: rat\<rfloor> + 1"
    by (simp add: X_def)
qed

lemma progressPercentOf_23_40: "progressPercentOf 23 40 = 57"
  by code_simp

text \<open>
  The model against known binary64 values: 0.1 is \<open>3602879701896397 / 2 ^ 55\<close>, and the
  two roundings behind page 23 of 40.
\<close>

lemma double_one_tenth: "double (1 / 10) = 3602879701896397 / 36028797018963968"
  by code_simp

lemma double_23_40: "double (23 / 40) = 2589569785738035 / 4503599627370496"
  by code_simp

lemma double_23_40_times_100:
  "double (2589569785738035 / 4503599627370496 * 100) = 8092405580431359 / 140737488355328"
  by code_simp

lemma progressPercentOf_near:
  assumes "0 \<le> c" "c < 2 ^ 31" "0 < t"
  shows "(frac (100 * of_int c / of_int t :: rat) \<noteq> 1 / 2 \<longrightarrow>
            progressPercentOf c t = round (100 * of_int c / of_int t :: rat))
         \<and> (frac (100 * of_int c / of_int t :: rat) = 1 / 2 \<longrightarrow>
            progressPercentOf c t = \<lfloor>100 * of_int c / of_int t :: rat\<rfloor>
            \<or> progressPercentOf c t = \<lfloor>100 * of_int c / of_int t :: rat\<rfloor> + 1)"
proof -
  have p: "progressPercentOf c t = \<lfloor>double (double (of_int c / of_int t) * 100) + 1 / 2\<rfloor>"
    using assms(3) by (simp add: progressPercentOf_def Math_round_def)
  note e = percent_error [OF assms]
  show ?thesis
    unfolding p using round_near [OF assms(3) e] by blast
qed

lemma saved_row:
  "h_progressPercent (fst (savedHistory now userId chapterId mangaId pd s))
     = progressPercentOf (pd_currentPage pd) (pd_totalPages pd)"
  "h_isCompleted (fst (savedHistory now userId chapterId mangaId pd s)) = isCompletedOf pd"
  by (simp_all add: savedHistory_def upsert_row historyUpdate_def historyCreate_def
        split: option.splits)

lemma saved_stored:
  "readingHistory_findUnique userId chapterId (snd (savedHistory now userId chapterId mangaId pd s))
     = Some (fst (savedHistory now userId chapterId mangaId pd s))"
  unfolding savedHistory_def
  by (rule upsert_stored) (simp_all add: historyUpdate_def historyCreate_def)


text \<open>
  Claim C2, as amended. For a successful \<^verbatim>\<open>saveProgress\<close> call with a current page
  that is not negative and page numbers below \<open>2 ^ 31\<close> (the range of an integer
  column), the row returned is the row stored under \<open>(userId, chapterId)\<close>. Its
  \<^verbatim>\<open>progressPercent\<close> is 0 when \<^verbatim>\<open>totalPages\<close> is 0. When \<^verbatim>\<open>totalPages\<close> is positive it
  is an integer nearest to \<open>100 * currentPage / totalPages\<close>: the rounded value whenever
  the exact percentage is not halfway between two integers, and one of the two
  neighbouring integers when it is. \<^verbatim>\<open>isCompleted\<close> is stored true exactly when the
  caller passed true or \<^verbatim>\<open>progressPercent\<close> is at least 100, so it is true at 100
  percent also when the caller passed nothing. Page 15 of 25 gives 60; page 25 of 25
  gives 100 and a completed row.
\<close>

theorem saveProgress_progressPercent:
  assumes "saveProgress now userId chapterId pd s = (Inr h, s')"
    and "0 \<le> pd_currentPage pd" and "pd_currentPage pd < 2 ^ 31"
    and "pd_totalPages pd < 2 ^ 31"
  shows "readingHistory_findUnique userId chapterId s' = Some h
     \<and> (pd_totalPages pd = 0 \<longrightarrow> h_progressPercent h = 0)
     \<and> (0 < pd_totalPages pd
          \<and> frac (100 * of_int (pd_currentPage pd) / of_int (pd_totalPages pd) :: rat) \<noteq> 1 / 2 \<longrightarrow>
        h_progressPercent h
          = round (100 * of_int (pd_currentPage pd) / of_int (pd_totalPages pd) :: rat))
     \<and> (0 < pd_totalPages pd
          \<and> frac (100 * of_int (pd_currentPage pd) / of_int (pd_totalPages pd) :: rat) = 1 / 2 \<longrightarrow>
        h_progressPercent h
          = \<lfloor>100 * of_int (pd_currentPage pd) / of_int (pd_totalPages pd) :: rat\<rfloor>
        \<or> h_progressPercent h
          = \<lfloor>100 * of_int (pd_currentPage pd) / of_int (pd_totalPages pd) :: rat\<rfloor> + 1)
     \<and> h_isCompleted h = (pd_isCompleted pd = Some True \<or> 100 \<le> h_progressPercent h)
     \<and> (100 \<le> h_progressPercent h \<longrightarrow> h_isCompleted h)"
proof -
  from assms(1) obtain c m where c: "chapter_findUnique chapterId s = Some c"
    and m: "manga_findUnique (c_mangaId c) s = Some m"
    by (rule saveProgress_success)
  from saveProgress_ok [OF c m, of now userId pd] assms(1)
  have h: "h = fst (savedHistory now userId chapterId (c_mangaId c) pd s)"
    and s': "s' = (snd (savedHistory now userId chapterId (c_mangaId c) pd s))
                \<lparr>chapters := map (\<lambda>x. if c_id x = chapterId
                                       then x\<lparr>c_totalViews := c_totalViews x + 1\<rparr> else x)
                                 (chapters s),
                  mangas := map (\<lambda>x. if m_id x = c_mangaId c
                                     then x\<lparr>m_totalViews := m_totalViews x + 1\<rparr> else x)
                               (mangas s)\<rparr>"
    by simp_all
  have stored: "readingHistory_findUnique userId chapterId s' = Some h"
    by (simp add: s' h saved_stored)
  have pp: "h_progressPercent h = progressPercentOf (pd_currentPage pd) (pd_totalPages pd)"
    and ic: "h_isCompleted h = isCompletedOf pd"
    by (simp_all add: h saved_row)
  have zero: "pd_totalPages pd = 0 \<Longrightarrow> h_progressPercent h = 0"
    by (simp add: pp progressPercentOf_def)
  have near: "0 < pd_totalPages pd \<Longrightarrow>
      (frac (100 * of_int (pd_currentPage pd) / of_int (pd_totalPages pd) :: rat) \<noteq> 1 / 2 \<longrightarrow>
         h_progressPercent h
           = round (100 * of_int (pd_currentPage pd) / of_int (pd_totalPages pd) :: rat))
      \<and> (frac (100 * of_int (pd_currentPage pd) / of_int (pd_totalPages pd) :: rat) = 1 / 2 \<longrightarrow>
         h_progressPercent h
           = \<lfloor>100 * of_int (pd_currentPage pd) / of_int (pd_totalPages pd) :: rat\<rfloor>
         \<or> h_progressPercent h
           = \<lfloor>100 * of_int (pd_currentPage pd) / of_int (pd_totalPages pd) :: rat\<rfloor> + 1)"
    unfolding pp by (rule progressPercentOf_near [OF assms(2,3)])
  have compl: "h_isCompleted h = (pd_isCompleted pd = Some True \<or> 100 \<le> h_progressPercent h)"
    unfolding ic pp by (cases "pd_isCompleted pd") (simp_all add: isCompletedOf_def)
  from stored zero near compl show ?thesis by blast
qed

theorem saveProgress_progressPercent_witness:
  "\<not> isl (fst (saveProgress 6 7 20 \<lparr>pd_currentPage = 15, pd_totalPages = 25, pd_isCompleted = None\<rparr>
               demoStore))
   \<and> h_progressPercent
        (projr (fst (saveProgress 6 7 20
           \<lparr>pd_currentPage = 15, pd_totalPages = 25, pd_isCompleted = None\<rparr> demoStore))) = 60
   \<and> readingHistory_findUnique 7 20
        (snd (saveProgress 6 7 20
           \<lparr>pd_currentPage = 15, pd_totalPages = 25, pd_isCompleted = None\<rparr> demoStore))
       = Some (projr (fst (saveProgress 6 7 20
           \<lparr>pd_currentPage = 15, pd_totalPages = 25, pd_isCompleted = None\<rparr> demoStore)))
   \<and> h_progressPercent
        (projr (fst (saveProgress 6 7 20
           \<lparr>pd_currentPage = 25, pd_totalPages = 25, pd_isCompleted = None\<rparr> demoStore))) = 100
   \<and> h_isCompleted
        (projr (fst (saveProgress 6 7 20
           \<lparr>pd_currentPage = 25, pd_totalPages = 25, pd_isCompleted = None\<rparr> demoStore)))
   \<and> h_progressPercent
        (projr (fst (saveProgress 6 7 20
           \<lparr>pd_currentPage = 5, pd_totalPages = 0, pd_isCompleted = None\<rparr> demoStore))) = 0
   \<and> (h_progressPercent
        (projr (fst (saveProgress 6 7 20
           \<lparr>pd_currentPage = 23, pd_totalPages = 40, pd_isCompleted = None\<rparr> demoStore))) = 57
      \<or> h_progressPercent
        (projr (fst (saveProgress 6 7 20
           \<lparr>pd_currentPage = 23, pd_totalPages = 40, pd_isCompleted = None\<rparr> demoStore))) = 58)"
proof -
  have ok: "\<not> isl (fst (saveProgress 6 7 20 pd demoStore))" for pd
    using saveProgress_ok [OF demo_chapter demo_chapter_manga, of 6 7 pd] by simp
  have whole: "frac (60 :: rat) = 0" "frac (100 :: rat) = 0"
    using frac_of_int [of 60, where ?'a = rat] frac_of_int [of 100, where ?'a = rat] by simp_all
  have fl: "\<lfloor>115 / 2 :: rat\<rfloor> = 57"
    by (rule floor_unique) simp_all
  then have half: "frac (115 / 2 :: rat) = 1 / 2"
    by (simp add: frac_def)
  from saveProgress_progressPercent
         [OF demo_save [of "\<lparr>pd_currentPage = 15, pd_totalPages = 25, pd_isCompleted = None\<rparr>"]]
       saveProgress_progressPercent
         [OF demo_save [of "\<lparr>pd_currentPage = 25, pd_totalPages = 25, pd_isCompleted = None\<rparr>"]]
       saveProgress_progressPercent
         [OF demo_save [of "\<lparr>pd_currentPage = 5, pd_totalPages = 0, pd_isCompleted = None\<rparr>"]]
       saveProgress_progressPercent
         [OF demo_save [of "\<lparr>pd_currentPage = 23, pd_totalPages = 40, pd_isCompleted = None\<rparr>"]]
  show ?thesis
    using ok by (auto simp: half whole fl)
qed


text \<open>
  The claim as stated gives \<open>round (100 * currentPage / totalPages)\<close> in every case.
  The service evaluates \<^verbatim>\<open>Math.round((currentPage / totalPages) * 100)\<close> on binary64
  numbers. For page 23 of 40 the quotient is the double
  \<open>2589569785738035 / 2 ^ 52\<close> (just below 0.575), its product with 100 is the double
  \<open>8092405580431359 / 2 ^ 47\<close> (57.49999999999999289...), and \<^verbatim>\<open>Math.round\<close> returns
  57, where the exact percentage 57.5 rounds to 58.
\<close>

theorem saveProgress_rounds_half_down:
  "\<not> isl (fst (saveProgress 6 7 20 \<lparr>pd_currentPage = 23, pd_totalPages = 40, pd_isCompleted = None\<rparr>
               demoStore))
   \<and> h_progressPercent
        (projr (fst (saveProgress 6 7 20
           \<lparr>pd_currentPage = 23, pd_totalPages = 40, pd_isCompleted = None\<rparr> demoStore))) = 57
   \<and> round (100 * 23 / 40 :: rat) = 58"
proof -
  let ?pd = "\<lparr>pd_currentPage = 23, pd_totalPages = 40, pd_isCompleted = None\<rparr>"
  have "fst (saveProgress 6 7 20 ?pd demoStore)
          = Inr (fst (savedHistory 6 7 20 (c_mangaId demoChapter) ?pd demoStore))"
    using saveProgress_ok [OF demo_chapter demo_chapter_manga, of 6 7 ?pd] by simp
  moreover have "round (100 * 23 / 40 :: rat) = 58"
    by (simp add: round_def)
  ultimately show ?thesis
    by (simp add: saved_row progressPercentOf_23_40)
qed


section \<open>Continue reading\<close>







lemma set_orderBy [simp]: "set (orderByLastReadAtDesc rows) = set rows"
  by (simp add: orderByLastReadAtDesc_def)





















text \<open>
  Such a row is left behind by the services themselves when the schema attaches no
  referential action to the deletion of a manga: user 7 saves progress on chapter 20 of
  manga 10 and then deletes the manga; the reading-history row stays, and the next
  continue-reading call of the user throws.
\<close>

lemma getContinueReading_after_deleteManga:
  "fst (saveProgress 6 7 20 \<lparr>pd_currentPage = 3, pd_totalPages = 9, pd_isCompleted = None\<rparr>
          demoStore)
     = Inr \<lparr>h_id = 30, h_userId = 7, h_chapterId = 20, h_mangaId = 10, h_currentPage = 3,
             h_totalPages = 9, h_progressPercent = 33, h_isCompleted = False,
             h_lastReadAt = 6\<rparr>
   \<and> fst (deleteManga plainCollaborators 10 7 UPLOADER
          (snd (saveProgress 6 7 20
                  \<lparr>pd_currentPage = 3, pd_totalPages = 9, pd_isCompleted = None\<rparr> demoStore)))
     = Inr True
   \<and> getContinueReading 7 None
        (snd (deleteManga plainCollaborators 10 7 UPLOADER
          (snd (saveProgress 6 7 20
                  \<lparr>pd_currentPage = 3, pd_totalPages = 9, pd_isCompleted = None\<rparr> demoStore))))
     = Inl (TypeError ''item.manga is null'')"
  by code_simp

section \<open>The random sample\<close>

lemma length_fisherYates [simp]: "length (fisherYates i js xs) = length xs"
  by (induction i js xs rule: fisherYates.induct) simp_all

lemma fisherYates_Nil [simp]: "fisherYates i js [] = []"
  using length_fisherYates [of i js "[]"] by (simp del: length_fisherYates)

lemma mset_fisherYates:
  "validDraws i js \<Longrightarrow> i < length xs \<or> xs = [] \<Longrightarrow> mset (fisherYates i js xs) = mset xs"
proof (induction i js xs rule: fisherYates.induct)
  case (1 js xs)
  then show ?case by simp
next
  case (2 i xs)
  then show ?case by simp
next
  case (3 i j js xs)
  from "3.prems" have j: "j \<le> Suc i" and v: "validDraws i js" by simp_all
  show ?case
  proof (cases "xs = []")
    case True
    then show ?thesis by simp
  next
    case False
    with "3.prems" have i: "Suc i < length xs" by simp
    with j have sw: "mset (xs[Suc i := xs ! j, j := xs ! Suc i]) = mset xs"
      by (intro mset_swap) simp_all
    from "3.IH" [OF v] i have "mset (fisherYates i js (xs[Suc i := xs ! j, j := xs ! Suc i]))
                                = mset (xs[Suc i := xs ! j, j := xs ! Suc i])"
      by simp
    with sw show ?thesis by simp
  qed
qed

lemma fisherYates_above:
  "validDraws i js \<Longrightarrow> i < k \<Longrightarrow> k < length xs \<Longrightarrow> fisherYates i js xs ! k = xs ! k"
proof (induction i js xs rule: fisherYates.induct)
  case (1 js xs)
  then show ?case by simp
next
  case (2 i xs)
  then show ?case by simp
next
  case (3 i j js xs)
  from "3.prems" have j: "j \<le> Suc i" and v: "validDraws i js" by simp_all
  from "3.prems" have "fisherYates i js (xs[Suc i := xs ! j, j := xs ! Suc i]) ! k
                         = (xs[Suc i := xs ! j, j := xs ! Suc i]) ! k"
    by (intro "3.IH" [OF v]) simp_all
  also have "\<dots> = xs ! k"
    using "3.prems" j by simp
  finally show ?case by simp
qed

lemma swap_at_top:
  "Suc i < length xs \<Longrightarrow> j \<le> Suc i \<Longrightarrow> (xs[Suc i := xs ! j, j := xs ! Suc i]) ! Suc i = xs ! j"
  by (cases "j = Suc i") simp_all

lemma fisherYates_top:
  assumes "validDraws i js" "j \<le> Suc i" "Suc i < length xs"
  shows "fisherYates (Suc i) (j # js) xs ! Suc i = xs ! j"
proof -
  have "fisherYates i js (xs[Suc i := xs ! j, j := xs ! Suc i]) ! Suc i
          = (xs[Suc i := xs ! j, j := xs ! Suc i]) ! Suc i"
    using assms by (intro fisherYates_above) simp_all
  with swap_at_top [OF assms(3,2)] show ?thesis by simp
qed

lemma fisherYates_inj:
  "validDraws i js \<Longrightarrow> validDraws i js' \<Longrightarrow> i < length xs \<Longrightarrow> distinct xs \<Longrightarrow>
     fisherYates i js xs = fisherYates i js' xs \<Longrightarrow> js = js'"
proof (induction i arbitrary: js js' xs)
  case 0
  then show ?case by simp
next
  case (Suc i)
  from Suc.prems(1) obtain j t where js: "js = j # t" and j: "j \<le> Suc i" and t: "validDraws i t"
    by (cases js) auto
  from Suc.prems(2) obtain j' t' where js': "js' = j' # t'" and j': "j' \<le> Suc i"
    and t': "validDraws i t'"
    by (cases js') auto
  have "xs ! j = fisherYates (Suc i) js xs ! Suc i"
    unfolding js using fisherYates_top [OF t j Suc.prems(3)] by simp
  also have "\<dots> = fisherYates (Suc i) js' xs ! Suc i"
    using Suc.prems(5) by simp
  also have "\<dots> = xs ! j'"
    unfolding js' using fisherYates_top [OF t' j' Suc.prems(3)] by simp
  finally have "xs ! j = xs ! j'" .
  with Suc.prems(3,4) j j' have jj: "j = j'"
    by (simp add: nth_eq_iff_index_eq)
  let ?xs = "xs[Suc i := xs ! j, j := xs ! Suc i]"
  have "mset ?xs = mset xs"
    using Suc.prems(3) j by (intro mset_swap) simp_all
  with Suc.prems(4) have d: "distinct ?xs"
    by (simp add: mset_eq_imp_distinct_iff [of ?xs xs])
  have l: "i < length ?xs" using Suc.prems(3) by simp
  from Suc.prems(5) have "fisherYates i t ?xs = fisherYates i t' ?xs"
    by (simp add: js js' jj)
  from Suc.IH [OF t t' l d this] jj show ?case
    by (simp add: js js')
qed

lemma fisherYates_surj:
  "i < length xs \<Longrightarrow> length ys = length xs \<Longrightarrow>
   mset (take (Suc i) ys) = mset (take (Suc i) xs) \<Longrightarrow> drop (Suc i) ys = drop (Suc i) xs \<Longrightarrow>
     \<exists>js. validDraws i js \<and> fisherYates i js xs = ys"
proof (induction i arbitrary: xs)
  case 0
  from 0 have "take 1 ys = [ys ! 0]" "take 1 xs = [xs ! 0]"
    by (simp_all add: take_Suc_conv_app_nth)
  with "0.prems"(3) have "take 1 ys = take 1 xs" by simp
  with "0.prems"(4) have "take 1 ys @ drop 1 ys = take 1 xs @ drop 1 xs" by simp
  then have "ys = xs" by (simp only: append_take_drop_id)
  then show ?case by (intro exI [of _ "[]"]) simp
next
  case (Suc i)
  let ?n = "Suc (Suc i)"
  have ly: "Suc i < length ys" using Suc.prems by simp
  have "ys ! Suc i \<in> set (take ?n ys)"
    using ly by (simp add: in_set_conv_nth) (metis lessI nth_take length_take min.absorb2 Suc_leI less_imp_le)
  then have "ys ! Suc i \<in> set (take ?n xs)"
    using Suc.prems(3) by (metis mset_eq_setD)
  then obtain j where j: "j < ?n" "j < length xs" "xs ! j = ys ! Suc i"
    by (auto simp: in_set_conv_nth)
  let ?xs = "xs[Suc i := xs ! j, j := xs ! Suc i]"
  have jle: "j \<le> Suc i" using j(1) by simp
  have top: "?xs ! Suc i = ys ! Suc i"
    using swap_at_top [OF Suc.prems(1) jle] j(3) by simp
  have lx: "length ?xs = length xs" by simp
  have dr: "drop (Suc i) ys = drop (Suc i) ?xs"
  proof (rule nth_equalityI)
    show "length (drop (Suc i) ys) = length (drop (Suc i) ?xs)"
      using Suc.prems(2) by simp
  next
    fix k assume k: "k < length (drop (Suc i) ys)"
    show "drop (Suc i) ys ! k = drop (Suc i) ?xs ! k"
    proof (cases k)
      case 0
      with top ly Suc.prems(1) show ?thesis by simp
    next
      case (Suc k')
      have "drop ?n ys ! k' = drop ?n xs ! k'"
        using Suc.prems(4) by simp
      moreover have "Suc i + k < length xs" using k Suc.prems(2) by simp
      ultimately show ?thesis
        using Suc jle Suc.prems(2) ly by simp
    qed
  qed
  have "take ?n ?xs = (take ?n xs)[Suc i := take ?n xs ! j, j := take ?n xs ! Suc i]"
    using j(1) by (simp add: take_update_swap)
  moreover have "mset ((take ?n xs)[Suc i := take ?n xs ! j, j := take ?n xs ! Suc i])
                   = mset (take ?n xs)"
    using Suc.prems(1) j(1) by (intro mset_swap) simp_all
  ultimately have "mset (take ?n ?xs) = mset (take ?n ys)"
    using Suc.prems(3) by simp
  moreover have "take ?n ?xs = take (Suc i) ?xs @ [?xs ! Suc i]"
    using Suc.prems(1) by (intro take_Suc_conv_app_nth) simp
  moreover have "take ?n ys = take (Suc i) ys @ [ys ! Suc i]"
    using ly by (intro take_Suc_conv_app_nth)
  ultimately have ms: "mset (take (Suc i) ys) = mset (take (Suc i) ?xs)"
    using top by simp
  have "i < length ?xs" using Suc.prems(1) by simp
  from Suc.IH [OF this _ ms dr] Suc.prems(2)
  obtain t where t: "validDraws i t" "fisherYates i t ?xs = ys" by auto
  then have "validDraws (Suc i) (j # t) \<and> fisherYates (Suc i) (j # t) xs = ys"
    using jle by simp
  then show ?case by blast
qed

lemma fisherYates_bij:
  assumes "distinct xs"
  shows "bij_betw (\<lambda>js. fisherYates (length xs - 1) js xs)
           {js. validDraws (length xs - 1) js} {ys. mset ys = mset xs}"
proof (cases "xs = []")
  case True
  have "{js. validDraws 0 js} = {[]}" by auto
  with True show ?thesis by (simp add: bij_betw_def)
next
  case False
  then have n: "length xs - 1 < length xs" by simp
  show ?thesis
    unfolding bij_betw_def
  proof (intro conjI)
    show "inj_on (\<lambda>js. fisherYates (length xs - 1) js xs) {js. validDraws (length xs - 1) js}"
      by (rule inj_onI) (use fisherYates_inj [OF _ _ n assms] in simp)
    show "(\<lambda>js. fisherYates (length xs - 1) js xs) ` {js. validDraws (length xs - 1) js}
            = {ys. mset ys = mset xs}"
    proof (intro set_eqI iffI)
      fix ys assume "ys \<in> (\<lambda>js. fisherYates (length xs - 1) js xs) ` {js. validDraws (length xs - 1) js}"
      then show "ys \<in> {ys. mset ys = mset xs}"
        using mset_fisherYates [of "length xs - 1" _ xs] n by auto
    next
      fix ys assume "ys \<in> {ys. mset ys = mset xs}"
      then have m: "mset ys = mset xs" by simp
      then have l: "length ys = length xs" by (rule mset_eq_length)
      have "Suc (length xs - 1) = length xs" using False by (cases xs) simp_all
      with m l have "mset (take (Suc (length xs - 1)) ys) = mset (take (Suc (length xs - 1)) xs)"
        "drop (Suc (length xs - 1)) ys = drop (Suc (length xs - 1)) xs"
        by simp_all
      from fisherYates_surj [OF n l this]
      show "ys \<in> (\<lambda>js. fisherYates (length xs - 1) js xs) ` {js. validDraws (length xs - 1) js}"
        by auto
    qed
  qed
qed

lemma length_filter_keys:
  assumes "distinct (map f xs)" and "A \<subseteq> f ` set xs"
  shows "length (filter (\<lambda>x. f x \<in> A) xs) = card A"
proof -
  have "length (filter (\<lambda>x. f x \<in> A) xs) = length (map f (filter (\<lambda>x. f x \<in> A) xs))"
    by simp
  also have "\<dots> = card (set (map f (filter (\<lambda>x. f x \<in> A) xs)))"
    using assms(1) by (intro distinct_card [symmetric]) (simp add: distinct_map_filter)
  also have "set (map f (filter (\<lambda>x. f x \<in> A) xs)) = A"
    using assms(2) by auto
  finally show ?thesis .
qed

lemma slice0_take [simp]: "slice0 xs (int n) = take n xs"
  by (simp add: slice0_def)

lemma getRandomManga_filter:
  "getRandomManga js limit s = filter (\<lambda>m. m_id m \<in> set (selectedIds js limit s)) (mangas s)"
proof (cases "filter (\<lambda>m. m_approvalStatus m = APPROVED) (mangas s) = []")
  case True
  then have "approvedIds s = []" by (simp add: approvedIds_def)
  then have "selectedIds js limit s = []"
    by (simp add: selectedIds_def slice0_def)
  with True show ?thesis by (simp add: getRandomManga_def)
next
  case False
  then show ?thesis by (simp add: getRandomManga_def)
qed

lemma approved_of_id:
  assumes "distinct (map m_id (mangas s))" and "m \<in> set (mangas s)"
  shows "m_id m \<in> set (approvedIds s) \<longleftrightarrow> m_approvalStatus m = APPROVED"
proof
  assume "m_id m \<in> set (approvedIds s)"
  then obtain m' where m': "m' \<in> set (mangas s)" "m_approvalStatus m' = APPROVED" "m_id m' = m_id m"
    by (auto simp: approvedIds_def)
  from assms(1) have "inj_on m_id (set (mangas s))" by (simp add: distinct_map)
  with m'(1,3) assms(2) have "m' = m" by (auto dest: inj_onD)
  with m'(2) show "m_approvalStatus m = APPROVED" by simp
next
  assume "m_approvalStatus m = APPROVED"
  with assms(2) show "m_id m \<in> set (approvedIds s)" by (auto simp: approvedIds_def)
qed


text \<open>
  Claim C7. Manga ids being primary keys, and the draws being in the range that
  \<^verbatim>\<open>Math.floor(Math.random() * (i + 1))\<close> has, the Fisher-Yates loop returns a
  permutation of the ids of all APPROVED mangas, and \<^verbatim>\<open>getRandomManga\<close> returns the
  rows whose ids are the first \<open>n\<close> entries of the shuffled list: every row is APPROVED,
  no id occurs twice, and there are as many rows as the smaller of \<open>n\<close> and the size of
  the pool; with \<open>n\<close> the size of the pool these are all approved mangas, each once.
  The loop maps the sequences of draws one-to-one onto the permutations of the ids, so
  every permutation comes from exactly one sequence of draws and uniform independent
  draws make all permutations equally likely.
\<close>

theorem getRandomManga_sample:
  assumes "distinct (map m_id (mangas s))"
    and "validDraws (length (approvedIds s) - 1) js"
  shows
    "mset (fisherYates (length (approvedIds s) - 1) js (approvedIds s)) = mset (approvedIds s)
     \<and> selectedIds js (int n) s
         = take n (fisherYates (length (approvedIds s) - 1) js (approvedIds s))
     \<and> m_id ` set (getRandomManga js (int n) s) = set (selectedIds js (int n) s)
     \<and> (\<forall>m \<in> set (getRandomManga js (int n) s).
           m \<in> set (mangas s) \<and> m_approvalStatus m = APPROVED)
     \<and> distinct (map m_id (getRandomManga js (int n) s))
     \<and> length (getRandomManga js (int n) s) = min n (length (approvedIds s))
     \<and> (n = length (approvedIds s) \<longrightarrow>
           getRandomManga js (int n) s
             = filter (\<lambda>m. m_approvalStatus m = APPROVED) (mangas s))
     \<and> bij_betw (\<lambda>js. fisherYates (length (approvedIds s) - 1) js (approvedIds s))
           {js. validDraws (length (approvedIds s) - 1) js}
           {ys. mset ys = mset (approvedIds s)}"
proof -
  let ?ids = "approvedIds s"
  let ?sh = "fisherYates (length ?ids - 1) js ?ids"
  let ?sel = "selectedIds js (int n) s"
  let ?res = "getRandomManga js (int n) s"
  have dids: "distinct ?ids"
    using assms(1) by (simp add: approvedIds_def distinct_map_filter)
  have perm: "mset ?sh = mset ?ids"
    using assms(2) by (intro mset_fisherYates) (auto simp: less_Suc_eq_0_disj)
  have sel: "?sel = take n ?sh"
    by (simp add: selectedIds_def)
  have dsh: "distinct ?sh"
    using mset_eq_imp_distinct_iff [OF perm] dids by blast
  have dsel: "distinct ?sel"
    unfolding sel using dsh by (rule distinct_take)
  have "set ?sh = set ?ids" using perm by (rule mset_eq_setD)
  then have sub: "set ?sel \<subseteq> set ?ids"
    unfolding sel using set_take_subset [of n ?sh] by simp
  then have sub': "set ?sel \<subseteq> m_id ` set (mangas s)"
    by (auto simp: approvedIds_def)
  have res: "?res = filter (\<lambda>m. m_id m \<in> set ?sel) (mangas s)"
    by (rule getRandomManga_filter)
  have ids: "m_id ` set ?res = set ?sel"
    unfolding res using sub' by auto
  have appr: "\<forall>m \<in> set ?res. m \<in> set (mangas s) \<and> m_approvalStatus m = APPROVED"
    unfolding res using sub approved_of_id [OF assms(1)] by auto
  have dres: "distinct (map m_id ?res)"
    unfolding res using assms(1) by (simp add: distinct_map_filter)
  have "length ?res = card (set ?sel)"
    unfolding res by (rule length_filter_keys [OF assms(1) sub'])
  also have "\<dots> = length ?sel" using dsel by (rule distinct_card)
  also have "\<dots> = min n (length ?ids)" by (simp add: sel min.commute)
  finally have len: "length ?res = min n (length ?ids)" .
  have whole: "n = length ?ids \<Longrightarrow> ?res = filter (\<lambda>m. m_approvalStatus m = APPROVED) (mangas s)"
  proof -
    assume n: "n = length ?ids"
    then have "take n ?sh = ?sh" by simp
    with sel have "?sel = ?sh" by (simp only:)
    then have "set ?sel = set ?ids" using \<open>set ?sh = set ?ids\<close> by simp
    then have "?res = filter (\<lambda>m. m_id m \<in> set ?ids) (mangas s)" by (simp add: res)
    also have "\<dots> = filter (\<lambda>m. m_approvalStatus m = APPROVED) (mangas s)"
      by (rule filter_cong) (simp_all add: approved_of_id [OF assms(1)])
    finally show ?thesis .
  qed
  note bij = fisherYates_bij [OF dids]
  from perm sel ids appr dres len whole bij show ?thesis by blast
qed


lemma demo_shuffle:
  "approvedIds demoCatalog = [11, 12, 13, 14, 15]"
  "fisherYates 4 [2, 0, 1, 0] [11, 12, 13, 14, 15 :: nat] = [15, 14, 12, 11, 13]"
  "validDraws 4 [2, 0, 1, 0]"
  "distinct (map m_id (mangas demoCatalog))"
  by (simp_all add: approvedIds_def demoCatalog_def catalogEntry_def emptyStore_def
        eval_nat_numeral)

theorem getRandomManga_sample_witness:
  "distinct (map m_id (mangas demoCatalog))
   \<and> validDraws (length (approvedIds demoCatalog) - 1) [2, 0, 1, 0]
   \<and> fisherYates (length (approvedIds demoCatalog) - 1) [2, 0, 1, 0] (approvedIds demoCatalog)
       = [15, 14, 12, 11, 13]
   \<and> m_id ` set (getRandomManga [2, 0, 1, 0] 2 demoCatalog) = {15, 14}
   \<and> length (getRandomManga [2, 0, 1, 0] 2 demoCatalog) = 2
   \<and> length (getRandomManga [2, 0, 1, 0] 5 demoCatalog) = 5
   \<and> getRandomManga [2, 0, 1, 0] 5 demoCatalog
       = [catalogEntry 11 ''a'' APPROVED, catalogEntry 12 ''b'' APPROVED,
          catalogEntry 13 ''c'' APPROVED, catalogEntry 14 ''d'' APPROVED,
          catalogEntry 15 ''e'' APPROVED]"
proof -
  have v: "validDraws (length (approvedIds demoCatalog) - 1) [2, 0, 1, 0]"
    by (simp add: demo_shuffle)
  have sh: "fisherYates (length (approvedIds demoCatalog) - 1) [2, 0, 1, 0] (approvedIds demoCatalog)
              = [15, 14, 12, 11, 13]"
    by (simp add: demo_shuffle)
  have pool: "filter (\<lambda>m. m_approvalStatus m = APPROVED) (mangas demoCatalog)
                = [catalogEntry 11 ''a'' APPROVED, catalogEntry 12 ''b'' APPROVED,
                   catalogEntry 13 ''c'' APPROVED, catalogEntry 14 ''d'' APPROVED,
                   catalogEntry 15 ''e'' APPROVED]"
    by (simp add: demoCatalog_def catalogEntry_def)
  from getRandomManga_sample [OF demo_shuffle(4) v, of 2]
       getRandomManga_sample [OF demo_shuffle(4) v, of 5]
  show ?thesis
    using v sh pool demo_shuffle(1,4) by simp
qed

section \<open>Creating a manga with an empty title\<close>

lemma createManga_thumbnail_failed:
  "uploadOptional ext (f_thumbnail files) = Inl e \<Longrightarrow>
     createManga ext md files userId userRole s = (Inl e, s)"
  by (simp add: createManga_def)

lemma createManga_cover_failed:
  "uploadOptional ext (f_thumbnail files) = Inr t \<Longrightarrow>
   uploadOptional ext (f_coverImage files) = Inl e \<Longrightarrow>
     createManga ext md files userId userRole s = (Inl e, s)"
  by (simp add: createManga_def)

lemma connectOrCreate_error:
  "connectOrCreate operations table = Inl e \<Longrightarrow> e = PrismaError ''P2002''"
  by (induction operations table rule: connectOrCreate.induct) (simp_all split: if_splits)

lemma connectOrCreate_new:
  "distinct (map r_name operations) \<Longrightarrow> distinct (map r_slug operations) \<Longrightarrow>
   set (map r_name operations) \<inter> set (map r_name table) = {} \<Longrightarrow>
   set (map r_slug operations) \<inter> set (map r_slug table) = {} \<Longrightarrow>
     connectOrCreate operations table = Inr (table @ operations)"
  by (induction operations table rule: connectOrCreate.induct) auto

lemma connectOrCreate_slug_clash:
  "connectOrCreate [\<lparr>r_name = ''Action'', r_slug = ''action''\<rparr>,
                    \<lparr>r_name = ''action'', r_slug = ''action''\<rparr>] []
     = Inl (PrismaError ''P2002'')"
  by simp

lemma createManga_slug_taken:
  "uploadOptional ext (f_thumbnail files) = Inr t \<Longrightarrow>
   uploadOptional ext (f_coverImage files) = Inr c \<Longrightarrow>
   createSlug ext (md_title md) \<in> set (map m_slug (mangas s)) \<Longrightarrow>
     createManga ext md files userId userRole s = (Inl (PrismaError ''P2002''), s)"
  by (simp add: createManga_def manga_create_def newManga_def)

lemma createManga_author_refused:
  "uploadOptional ext (f_thumbnail files) = Inr t \<Longrightarrow>
   uploadOptional ext (f_coverImage files) = Inr c \<Longrightarrow>
   createSlug ext (md_title md) \<notin> set (map m_slug (mangas s)) \<Longrightarrow>
   connectOrCreate (connectOperations ext (md_authorNames md)) (authors s) = Inl e \<Longrightarrow>
     createManga ext md files userId userRole s = (Inl e, s)"
  by (simp add: createManga_def manga_create_def newManga_def)

lemma createManga_genre_refused:
  "uploadOptional ext (f_thumbnail files) = Inr t \<Longrightarrow>
   uploadOptional ext (f_coverImage files) = Inr c \<Longrightarrow>
   createSlug ext (md_title md) \<notin> set (map m_slug (mangas s)) \<Longrightarrow>
   connectOrCreate (connectOperations ext (md_authorNames md)) (authors s) = Inr authorRows \<Longrightarrow>
   connectOrCreate (connectOperations ext (md_genreNames md)) (genres s) = Inl e \<Longrightarrow>
     createManga ext md files userId userRole s = (Inl e, s)"
  by (simp add: createManga_def manga_create_def newManga_def)

lemma createManga_ok:
  "uploadOptional ext (f_thumbnail files) = Inr t \<Longrightarrow>
   uploadOptional ext (f_coverImage files) = Inr c \<Longrightarrow>
   createSlug ext (md_title md) \<notin> set (map m_slug (mangas s)) \<Longrightarrow>
   connectOrCreate (connectOperations ext (md_authorNames md)) (authors s) = Inr authorRows \<Longrightarrow>
   connectOrCreate (connectOperations ext (md_genreNames md)) (genres s) = Inr genreRows \<Longrightarrow>
     createManga ext md files userId userRole s
       = (Inr (newManga ext md userId userRole s,
               if userRole = ADMIN then ''Manga created successfully''
               else ''Manga submitted for approval''),
          s\<lparr>mangas := mangas s @ [newManga ext md userId userRole s],
            authors := authorRows, genres := genreRows, nextId := Suc (nextId s)\<rparr>)"
  by (simp add: createManga_def manga_create_def) (simp add: newManga_def)


text \<open>
  Claim C9, as amended. A manga-creation request whose title is empty is not rejected
  by any validation: \<^verbatim>\<open>createManga\<close> derives the slug from the empty title and, when no
  upload fails and the store accepts the write, persists a manga with the empty title.
  The store accepts the write when the slug of the empty title is not taken and every
  author and genre of the request is connected or created, which fails when a new name
  has the slug of another author or genre; the author and genre names are taken to be
  listed once each. When an upload fails or the store refuses the write, the call fails
  with that error (the unique-constraint error \<^verbatim>\<open>P2002\<close> when it comes from the store),
  and nothing is persisted.
\<close>

theorem createManga_empty_title:
  assumes "md_title md = []"
  shows
    "(uploadOptional ext (f_thumbnail files) = Inl e \<longrightarrow>
        createManga ext md files userId userRole s = (Inl e, s))
     \<and> (uploadOptional ext (f_thumbnail files) = Inr t
          \<and> uploadOptional ext (f_coverImage files) = Inl e' \<longrightarrow>
        createManga ext md files userId userRole s = (Inl e', s))
     \<and> (uploadOptional ext (f_thumbnail files) = Inr t
          \<and> uploadOptional ext (f_coverImage files) = Inr c
          \<and> (createSlug ext [] \<in> set (map m_slug (mangas s))
              \<or> isl (connectOrCreate (connectOperations ext (md_authorNames md)) (authors s))
              \<or> isl (connectOrCreate (connectOperations ext (md_genreNames md)) (genres s))) \<longrightarrow>
        createManga ext md files userId userRole s = (Inl (PrismaError ''P2002''), s))
     \<and> (uploadOptional ext (f_thumbnail files) = Inr t
          \<and> uploadOptional ext (f_coverImage files) = Inr c
          \<and> createSlug ext [] \<notin> set (map m_slug (mangas s))
          \<and> connectOrCreate (connectOperations ext (md_authorNames md)) (authors s)
              = Inr authorRows
          \<and> connectOrCreate (connectOperations ext (md_genreNames md)) (genres s)
              = Inr genreRows
          \<and> distinct (md_authorNames md) \<and> distinct (md_genreNames md) \<longrightarrow>
        fst (createManga ext md files userId userRole s)
          = Inr (newManga ext md userId userRole s,
                 if userRole = ADMIN then ''Manga created successfully''
                 else ''Manga submitted for approval'')
        \<and> m_title (newManga ext md userId userRole s) = []
        \<and> mangas (snd (createManga ext md files userId userRole s))
            = mangas s @ [newManga ext md userId userRole s]
        \<and> authors (snd (createManga ext md files userId userRole s)) = authorRows
        \<and> genres (snd (createManga ext md files userId userRole s)) = genreRows)"
proof -
  have refused: "createManga ext md files userId userRole s = (Inl (PrismaError ''P2002''), s)"
    if up: "uploadOptional ext (f_thumbnail files) = Inr t"
           "uploadOptional ext (f_coverImage files) = Inr c"
      and no: "createSlug ext [] \<in> set (map m_slug (mangas s))
              \<or> isl (connectOrCreate (connectOperations ext (md_authorNames md)) (authors s))
              \<or> isl (connectOrCreate (connectOperations ext (md_genreNames md)) (genres s))"
  proof (cases "createSlug ext [] \<in> set (map m_slug (mangas s))")
    case True
    with up assms show ?thesis by (simp add: createManga_slug_taken)
  next
    case free: False
    show ?thesis
    proof (cases "connectOrCreate (connectOperations ext (md_authorNames md)) (authors s)")
      case (Inl x)
      with connectOrCreate_error [OF Inl] up free assms show ?thesis
        by (simp add: createManga_author_refused)
    next
      case a: (Inr authorRows)
      with no free obtain x where
        g: "connectOrCreate (connectOperations ext (md_genreNames md)) (genres s) = Inl x"
        by (cases "connectOrCreate (connectOperations ext (md_genreNames md)) (genres s)") auto
      with connectOrCreate_error [OF g] up free a assms show ?thesis
        using createManga_genre_refused [of ext files t c md s authorRows x userId userRole]
        by simp
    qed
  qed
  from assms refused
    createManga_thumbnail_failed [of ext files e md userId userRole s]
    createManga_cover_failed [of ext files t e' md userId userRole s]
    createManga_ok [of ext files t c md s authorRows genreRows userId userRole]
  show ?thesis by (auto simp: newManga_def)
qed


theorem createManga_empty_title_witness:
  "md_title \<lparr>md_title = [], md_status = None, md_authorNames = [''Author''],
              md_genreNames = [''Genre'']\<rparr> = []
   \<and> uploadOptional plainCollaborators (f_thumbnail \<lparr>f_thumbnail = None, f_coverImage = None\<rparr>)
       = Inr None
   \<and> createSlug plainCollaborators [] \<notin> set (map m_slug (mangas emptyStore))
   \<and> connectOrCreate (connectOperations plainCollaborators [''Author'']) (authors emptyStore)
       = Inr [\<lparr>r_name = ''Author'', r_slug = ''Author''\<rparr>]
   \<and> m_title (fst (projr (fst (createManga plainCollaborators
         \<lparr>md_title = [], md_status = None, md_authorNames = [''Author''],
           md_genreNames = [''Genre'']\<rparr>
         \<lparr>f_thumbnail = None, f_coverImage = None\<rparr> 7 UPLOADER emptyStore)))) = []
   \<and> length (mangas (snd (createManga plainCollaborators
         \<lparr>md_title = [], md_status = None, md_authorNames = [''Author''],
           md_genreNames = [''Genre'']\<rparr>
         \<lparr>f_thumbnail = None, f_coverImage = None\<rparr> 7 UPLOADER emptyStore))) = 1
   \<and> genres (snd (createManga plainCollaborators
         \<lparr>md_title = [], md_status = None, md_authorNames = [''Author''],
           md_genreNames = [''Genre'']\<rparr>
         \<lparr>f_thumbnail = None, f_coverImage = None\<rparr> 7 UPLOADER emptyStore))
       = [\<lparr>r_name = ''Genre'', r_slug = ''Genre''\<rparr>]
   \<and> createManga plainCollaborators
         \<lparr>md_title = [], md_status = None, md_authorNames = [''Author''],
           md_genreNames = [''Genre'']\<rparr>
         \<lparr>f_thumbnail = None, f_coverImage = None\<rparr> 7 UPLOADER
         (demoStore\<lparr>mangas := [demoManga\<lparr>m_slug := []\<rparr>]\<rparr>)
       = (Inl (PrismaError ''P2002''), demoStore\<lparr>mangas := [demoManga\<lparr>m_slug := []\<rparr>]\<rparr>)
   \<and> createManga plainCollaborators
         \<lparr>md_title = [], md_status = None, md_authorNames = [''Author''],
           md_genreNames = [''Genre'']\<rparr>
         \<lparr>f_thumbnail = None, f_coverImage = None\<rparr> 7 UPLOADER
         (emptyStore\<lparr>genres := [\<lparr>r_name = ''Old genre'', r_slug = ''Genre''\<rparr>]\<rparr>)
       = (Inl (PrismaError ''P2002''),
          emptyStore\<lparr>genres := [\<lparr>r_name = ''Old genre'', r_slug = ''Genre''\<rparr>]\<rparr>)"
proof -
  let ?md = "\<lparr>md_title = [], md_status = None, md_authorNames = [''Author''],
              md_genreNames = [''Genre'']\<rparr>"
  let ?files = "\<lparr>f_thumbnail = None, f_coverImage = None\<rparr>"
  let ?taken = "demoStore\<lparr>mangas := [demoManga\<lparr>m_slug := []\<rparr>]\<rparr>"
  let ?clash = "emptyStore\<lparr>genres := [\<lparr>r_name = ''Old genre'', r_slug = ''Genre''\<rparr>]\<rparr>"
  have t: "md_title ?md = []" by simp
  have up: "uploadOptional plainCollaborators (f_thumbnail ?files) = Inr None"
    "uploadOptional plainCollaborators (f_coverImage ?files) = Inr None"
    by (simp_all add: uploadOptional_def)
  have free: "createSlug plainCollaborators [] \<notin> set (map m_slug (mangas emptyStore))"
    "createSlug plainCollaborators [] \<notin> set (map m_slug (mangas ?clash))"
    by (simp_all add: emptyStore_def)
  have taken: "createSlug plainCollaborators [] \<in> set (map m_slug (mangas ?taken))"
    by (simp add: plainCollaborators_def)
  have a: "connectOrCreate (connectOperations plainCollaborators (md_authorNames ?md))
             (authors emptyStore) = Inr [\<lparr>r_name = ''Author'', r_slug = ''Author''\<rparr>]"
    by (simp add: connectOperations_def plainCollaborators_def emptyStore_def)
  have g: "connectOrCreate (connectOperations plainCollaborators (md_genreNames ?md))
             (genres emptyStore) = Inr [\<lparr>r_name = ''Genre'', r_slug = ''Genre''\<rparr>]"
    by (simp add: connectOperations_def plainCollaborators_def emptyStore_def)
  have g': "isl (connectOrCreate (connectOperations plainCollaborators (md_genreNames ?md))
             (genres ?clash))"
    by (simp add: connectOperations_def plainCollaborators_def emptyStore_def)
  note c = createManga_empty_title
             [OF t, where ext = plainCollaborators and files = ?files and t = None and c = None
                and userId = 7 and userRole = UPLOADER]
  from c [where s = emptyStore and authorRows = "[\<lparr>r_name = ''Author'', r_slug = ''Author''\<rparr>]"
            and genreRows = "[\<lparr>r_name = ''Genre'', r_slug = ''Genre''\<rparr>]"]
       c [where s = ?taken] c [where s = ?clash]
  show ?thesis
    using up free taken a g g' by (simp add: emptyStore_def)
qed

text \<open>
  The claim as stated has the request fail with a validation error and persist nothing.
  Neither the service nor the controller nor the route checks the title: on the empty
  store an UPLOADER's request with the empty title succeeds and the manga row is
  written, pending approval.
\<close>

theorem createManga_accepts_empty_title:
  "fst (createManga plainCollaborators
          \<lparr>md_title = [], md_status = None, md_authorNames = [''Author''],
            md_genreNames = [''Genre'']\<rparr>
          \<lparr>f_thumbnail = None, f_coverImage = None\<rparr> 7 UPLOADER emptyStore)
     = Inr (\<lparr>m_id = 0, m_title = [], m_slug = [], m_status = ONGOING,
              m_approvalStatus = PENDING, m_uploaderId = 7, m_authors = [''Author''],
              m_genres = [''Genre''], m_totalChapters = 0, m_totalViews = 0,
              m_lastChapterAt = None\<rparr>,
            ''Manga submitted for approval'')
   \<and> mangas (snd (createManga plainCollaborators
          \<lparr>md_title = [], md_status = None, md_authorNames = [''Author''],
            md_genreNames = [''Genre'']\<rparr>
          \<lparr>f_thumbnail = None, f_coverImage = None\<rparr> 7 UPLOADER emptyStore))
     = [\<lparr>m_id = 0, m_title = [], m_slug = [], m_status = ONGOING,
          m_approvalStatus = PENDING, m_uploaderId = 7, m_authors = [''Author''],
          m_genres = [''Genre''], m_totalChapters = 0, m_totalViews = 0,
          m_lastChapterAt = None\<rparr>]"
  by (simp add: createManga_def manga_create_def newManga_def uploadOptional_def
        connectOperations_def plainCollaborators_def emptyStore_def)

section \<open>Saving progress for a chapter that does not exist\<close>

text \<open>
  Claim C10. When \<^verbatim>\<open>chapterId\<close> names no chapter, \<^verbatim>\<open>saveProgress\<close> throws
  \<^verbatim>\<open>AppError('Chapter not found', 404)\<close> before any write: the store after the call
  is the store before it, so no reading-history row is created or updated and no view
  counter moves.
\<close>

theorem saveProgress_chapter_not_found:
  "chapter_findUnique chapterId s = None \<Longrightarrow>
     saveProgress now userId chapterId progressData s
       = (Inl (AppError ''Chapter not found'' 404), s)"
  by (simp add: saveProgress_def)

theorem saveProgress_chapter_not_found_witness:
  "chapter_findUnique 9 demoStore = None \<and>
   saveProgress 6 7 9 \<lparr>pd_currentPage = 1, pd_totalPages = 2, pd_isCompleted = None\<rparr> demoStore
     = (Inl (AppError ''Chapter not found'' 404), demoStore)"
proof -
  have h: "chapter_findUnique 9 demoStore = None"
    by (simp add: chapter_findUnique_def demoStore_def demoChapter_def)
  show ?thesis using h saveProgress_chapter_not_found [OF h] by simp
qed

end
